theory Spec2Isabelle
  imports Complex_Main "HOL-Library.Monad_Syntax" "HOL-Library.Multiset"
begin

section \<open>Calendar dates\<close>

text \<open>
  The program works on \<^verbatim>\<open>datetime.date\<close> values: a year, a month and a day, compared
  field by field, subtracted through their proleptic Gregorian ordinals.  The constructor
  \<^verbatim>\<open>datetime(y, m, d)\<close> raises \<^verbatim>\<open>ValueError\<close> on an impossible date; a raised exception
  is the value \<open>None\<close> of the model.
\<close>

record date =
  year :: int
  month :: int
  day :: int

definition is_leap :: "int \<Rightarrow> bool" where
  "is_leap y \<longleftrightarrow> y mod 4 = 0 \<and> (y mod 100 \<noteq> 0 \<or> y mod 400 = 0)"

definition days_in_month :: "int \<Rightarrow> int \<Rightarrow> int" where
  "days_in_month y m =
     (if m = 2 then (if is_leap y then 29 else 28)
      else if m = 4 \<or> m = 6 \<or> m = 9 \<or> m = 11 then 30 else 31)"

definition valid_date :: "date \<Rightarrow> bool" where
  "valid_date d \<longleftrightarrow>
     1 \<le> year d \<and> year d \<le> 9999 \<and> 1 \<le> month d \<and> month d \<le> 12 \<and>
     1 \<le> day d \<and> day d \<le> days_in_month (year d) (month d)"

definition mk_date :: "int \<Rightarrow> int \<Rightarrow> int \<Rightarrow> date option" where
  "mk_date y m d =
     (let r = \<lparr>year = y, month = m, day = d\<rparr> in if valid_date r then Some r else None)"

definition days_before_year :: "int \<Rightarrow> int" where
  "days_before_year y = (let p = y - 1 in p * 365 + p div 4 - p div 100 + p div 400)"

definition days_before_month :: "int \<Rightarrow> int \<Rightarrow> int" where
  "days_before_month y m =
     (if m = 1 then 0 else if m = 2 then 31 else if m = 3 then 59 else if m = 4 then 90
      else if m = 5 then 120 else if m = 6 then 151 else if m = 7 then 181
      else if m = 8 then 212 else if m = 9 then 243 else if m = 10 then 273
      else if m = 11 then 304 else 334)
     + (if 2 < m \<and> is_leap y then 1 else 0)"

definition toordinal :: "date \<Rightarrow> int" where
  "toordinal d = days_before_year (year d) + days_before_month (year d) (month d) + day d"

text \<open>\<^verbatim>\<open>(a - b).days\<close>\<close>

definition days_between :: "date \<Rightarrow> date \<Rightarrow> int" where
  "days_between a b = toordinal a - toordinal b"

text \<open>\<^verbatim>\<open>a < b\<close> and \<^verbatim>\<open>a <= b\<close> on dates\<close>

definition date_lt :: "date \<Rightarrow> date \<Rightarrow> bool" where
  "date_lt a b \<longleftrightarrow>
     year a < year b \<or>
     (year a = year b \<and> (month a < month b \<or> (month a = month b \<and> day a < day b)))"

definition date_le :: "date \<Rightarrow> date \<Rightarrow> bool" where
  "date_le a b \<longleftrightarrow> date_lt a b \<or> a = b"

text \<open>\<^verbatim>\<open>d - timedelta(days=1)\<close>; \<^verbatim>\<open>OverflowError\<close> before the first day of year 1.\<close>

definition minus_one_day :: "date \<Rightarrow> date option" where
  "minus_one_day d =
     (if 1 < day d then Some (d\<lparr>day := day d - 1\<rparr>)
      else if 1 < month d
        then Some (d\<lparr>month := month d - 1, day := days_in_month (year d) (month d - 1)\<rparr>)
      else if 1 < year d then Some \<lparr>year = year d - 1, month = 12, day = 31\<rparr>
      else None)"

text \<open>
  The anniversary of a hire date in a given year, as the program computes it at every
  place: \<^verbatim>\<open>try: datetime(y, hire_month, hire_day) except ValueError:
  datetime(y, hire_month, hire_day - 1)\<close>.  An error in the handler propagates.
\<close>

definition anniversary_in :: "date \<Rightarrow> int \<Rightarrow> date option" where
  "anniversary_in hire y =
     (case mk_date y (month hire) (day hire) of
        Some d \<Rightarrow> Some d
      | None \<Rightarrow> mk_date y (month hire) (day hire - 1))"

section \<open>LeaveCalculator\<close>

text \<open>
  Names are Python strings; the model keeps their UTF-8 bytes, on which equality is the
  equality of the strings.  The eleven names of the class attribute
  \<^verbatim>\<open>ONE_YEAR_OR_MORE_EMPLOYEES\<close>, in the order of the source:
\<close>

definition ONE_YEAR_OR_MORE_EMPLOYEES :: "string list" where
  "ONE_YEAR_OR_MORE_EMPLOYEES =
   [[CHR 0xEC, CHR 0xA0, CHR 0x84, CHR 0xEA, CHR 0xB8, CHR 0x88, CHR 0xED, CHR 0x9D, CHR 0xAC],
    [CHR 0xEB, CHR 0xB0, CHR 0x95, CHR 0xEC, CHR 0xA7, CHR 0x84, CHR 0xEC, CHR 0x84, CHR 0xB1],
    [CHR 0xEA, CHR 0xB9, CHR 0x80, CHR 0xEB, CHR 0xAF, CHR 0xB8, CHR 0xEB, CHR 0x9D, CHR 0xBC],
    [CHR 0xEA, CHR 0xB9, CHR 0x80, CHR 0xEC, CHR 0x95, CHR 0x84, CHR 0xEB, CHR 0xA6, CHR 0x84,
     CHR 0xEB, CHR 0xB2, CHR 0x8C],
    [CHR 0xEB, CHR 0xA7, CHR 0xB9, CHR 0xEA, CHR 0xB8, CHR 0xB0, CHR 0xEC, CHR 0x97, CHR 0xB4],
    [CHR 0xEA, CHR 0xB0, CHR 0x95, CHR 0xEC, CHR 0xA7, CHR 0x80, CHR 0xEC, CHR 0x8A, CHR 0xB9],
    [CHR 0xEC, CHR 0x8B, CHR 0xA0, CHR 0xEB, CHR 0x8F, CHR 0x99, CHR 0xEC, CHR 0x9D, CHR 0xB8],
    [CHR 0xEB, CHR 0x91, CHR 0x90, CHR 0xEB, CHR 0xB3, CHR 0xB4, CHR 0xEB, CHR 0x9D, CHR 0xBC],
    [CHR 0xEC, CHR 0x98, CHR 0xA4, CHR 0xEC, CHR 0x84, CHR 0xB8, CHR 0xEC, CHR 0x9B, CHR 0x90],
    [CHR 0xED, CHR 0x99, CHR 0xA9, CHR 0xED, CHR 0x98, CHR 0x9C, CHR 0xEC, CHR 0x84, CHR 0xA0],
    [CHR 0xEA, CHR 0xB9, CHR 0x80, CHR 0xED, CHR 0x98, CHR 0x84, CHR 0xEA, CHR 0xB2, CHR 0xBD]]"

text \<open>\<^verbatim>\<open>is_one_year_or_more(name, hire_date, target_date)\<close>\<close>

definition is_one_year_or_more :: "string \<Rightarrow> date \<Rightarrow> date \<Rightarrow> bool" where
  "is_one_year_or_more name hire_date target_date =
     (if name \<in> set ONE_YEAR_OR_MORE_EMPLOYEES then True
      else 365 \<le> days_between target_date hire_date)"

text \<open>\<^verbatim>\<open>months_passed\<close>, the expression the program repeats wherever it counts months.\<close>

definition months_passed :: "date \<Rightarrow> date \<Rightarrow> int" where
  "months_passed hire_date target_date =
     (let m = (year target_date - year hire_date) * 12 + (month target_date - month hire_date)
      in if day target_date < day hire_date then m - 1 else m)"

text \<open>\<^verbatim>\<open>calculate_monthly_leave(hire_date, target_date)\<close>\<close>

definition calculate_monthly_leave :: "date \<Rightarrow> date \<Rightarrow> int" where
  "calculate_monthly_leave hire_date target_date =
     (if 365 \<le> days_between target_date hire_date then 0
      else min (months_passed hire_date target_date) 11)"

text \<open>\<^verbatim>\<open>calculate_annual_leave(hire_date, target_date)\<close>\<close>

definition years_passed :: "date \<Rightarrow> date \<Rightarrow> int" where
  "years_passed hire_date target_date =
     (let y = year target_date - year hire_date
      in if month target_date < month hire_date \<or>
            (month target_date = month hire_date \<and> day target_date < day hire_date)
         then y - 1 else y)"

definition calculate_annual_leave :: "date \<Rightarrow> date \<Rightarrow> int" where
  "calculate_annual_leave hire_date target_date =
     (let n = years_passed hire_date target_date
      in if n < 1 then 0
         else let annual_leave = (if 3 \<le> n then 15 + ((n - 3) div 2 + 1) else 15)
              in min annual_leave 25)"


section \<open>The database\<close>

text \<open>
  The tables the calculation reads and writes, with the columns it uses.  Dates are stored
  as ISO text, whose order is the order of the dates.  The labels are the Korean string
  literals of the source (UTF-8 bytes): annual leave, half day, vacation and monthly leave
  in \<^verbatim>\<open>leave_type\<close>, and the two half-day marks in \<^verbatim>\<open>remarks\<close>.
\<close>

definition lt_yeoncha :: string where
  "lt_yeoncha = [CHR 0xEC, CHR 0x97, CHR 0xB0, CHR 0xEC, CHR 0xB0, CHR 0xA8]"

definition lt_bancha :: string where
  "lt_bancha = [CHR 0xEB, CHR 0xB0, CHR 0x98, CHR 0xEC, CHR 0xB0, CHR 0xA8]"

definition lt_hyuga :: string where
  "lt_hyuga = [CHR 0xED, CHR 0x9C, CHR 0xB4, CHR 0xEA, CHR 0xB0, CHR 0x80]"

definition lt_wolcha :: string where
  "lt_wolcha = [CHR 0xEC, CHR 0x9B, CHR 0x94, CHR 0xEC, CHR 0xB0, CHR 0xA8]"

definition rm_bancha_chulgeun :: string where
  "rm_bancha_chulgeun = [CHR 0xEB, CHR 0xB0, CHR 0x98, CHR 0xEC, CHR 0xB0, CHR 0xA8, CHR 0x5F,
     CHR 0xEC, CHR 0xB6, CHR 0x9C, CHR 0xEA, CHR 0xB7, CHR 0xBC]"

definition rm_bancha_toegeun :: string where
  "rm_bancha_toegeun = [CHR 0xEB, CHR 0xB0, CHR 0x98, CHR 0xEC, CHR 0xB0, CHR 0xA8, CHR 0x5F,
     CHR 0xED, CHR 0x87, CHR 0xB4, CHR 0xEA, CHR 0xB7, CHR 0xBC]"

record employee =
  emp_id :: int
  emp_name :: string
  emp_hire_date :: date

record attendance_record =
  ar_employee_id :: int
  work_date :: date
  leave_type :: "string option"
  remarks :: "string option"

record leave_record =
  lr_employee_id :: int
  lr_leave_type :: string
  leave_date :: date
  leave_amount :: rat

record leave_expiration =
  le_employee_id :: int
  le_leave_type :: string
  expired_amount :: rat
  expiration_date :: date
  le_year :: int

text \<open>
  A cell of \<^verbatim>\<open>leave_manual_values\<close> is text; \<open>manual_value\<close> is the number that
  \<^verbatim>\<open>float(manual_val)\<close> reads from it, \<open>None\<close> for an empty cell or one that does not parse.
\<close>

record leave_manual_value =
  mv_employee_id :: int
  mv_year :: int
  column_index :: int
  manual_value :: "rat option"

record leave_remaining =
  rm_employee_id :: int
  rm_year :: int
  remaining_amount :: rat

record database =
  employees :: "employee list"
  attendance_records :: "attendance_record list"
  leave_records :: "leave_record list"
  leave_expirations :: "leave_expiration list"
  leave_manual_values :: "leave_manual_value list"
  leave_remaining_by_year :: "leave_remaining list"

text \<open>\<^verbatim>\<open>SELECT id FROM leave_expirations WHERE employee_id = ? AND leave_type = ? AND
  expiration_date = ?\<close>, read as a truth value.\<close>

definition expiration_exists :: "database \<Rightarrow> int \<Rightarrow> string \<Rightarrow> date \<Rightarrow> bool" where
  "expiration_exists db employee_id kind d \<longleftrightarrow>
     (\<exists>r \<in> set (leave_expirations db).
        le_employee_id r = employee_id \<and> le_leave_type r = kind \<and> expiration_date r = d)"

text \<open>\<^verbatim>\<open>INSERT INTO leave_expirations (employee_id, leave_type, expired_amount,
  expiration_date, year)\<close>\<close>

definition insert_expiration :: "database \<Rightarrow> int \<Rightarrow> string \<Rightarrow> rat \<Rightarrow> date \<Rightarrow> int \<Rightarrow> database" where
  "insert_expiration db employee_id kind amount d y =
     db\<lparr>leave_expirations := leave_expirations db @
        [\<lparr>le_employee_id = employee_id, le_leave_type = kind, expired_amount = amount,
          expiration_date = d, le_year = y\<rparr>]\<rparr>"

text \<open>\<^verbatim>\<open>SELECT SUM(leave_amount) FROM leave_records WHERE employee_id = ? AND leave_type = ?
  AND leave_date >= ? AND leave_date < ?\<close>, with 0 for an empty selection; the lower bound
  is optional.\<close>

definition used_leave_records :: "database \<Rightarrow> int \<Rightarrow> string \<Rightarrow> date option \<Rightarrow> date \<Rightarrow> rat" where
  "used_leave_records db employee_id kind from_date until_date =
     sum_list (map leave_amount (filter
       (\<lambda>r. lr_employee_id r = employee_id \<and> lr_leave_type r = kind \<and>
            (case from_date of None \<Rightarrow> True | Some s \<Rightarrow> date_le s (leave_date r)) \<and>
            date_lt (leave_date r) until_date)
       (leave_records db)))"

text \<open>\<^verbatim>\<open>SUM(expired_amount)\<close> of the annual-leave expirations dated up to a day.\<close>

definition total_expired_until :: "database \<Rightarrow> int \<Rightarrow> date \<Rightarrow> rat" where
  "total_expired_until db employee_id d =
     sum_list (map expired_amount (filter
       (\<lambda>r. le_employee_id r = employee_id \<and> le_leave_type r = lt_yeoncha \<and>
            date_le (expiration_date r) d)
       (leave_expirations db)))"

section \<open>Expiration checks of LeaveCalculator\<close>

text \<open>\<^verbatim>\<open>check_monthly_leave_expiration(employee_id, hire_date, target_date)\<close>: the new
  database and the returned amount.\<close>

definition check_monthly_leave_expiration ::
  "database \<Rightarrow> int \<Rightarrow> date \<Rightarrow> date \<Rightarrow> (database \<times> rat) option" where
  "check_monthly_leave_expiration db employee_id hire_date target_date =
     (case find (\<lambda>e. emp_id e = employee_id) (employees db) of
        None \<Rightarrow> Some (db, 0)
      | Some e \<Rightarrow>
          if is_one_year_or_more (emp_name e) hire_date target_date then Some (db, 0)
          else do {
            one_year_date \<leftarrow> anniversary_in hire_date (year hire_date + 1);
            if date_le one_year_date target_date then
              if expiration_exists db employee_id lt_wolcha one_year_date then Some (db, 0)
              else do {
                let total_used = used_leave_records db employee_id lt_wolcha None one_year_date;
                eve \<leftarrow> minus_one_day one_year_date;
                let max_monthly_leave = min 11 (calculate_monthly_leave hire_date eve);
                let expired_amount = of_int max_monthly_leave - total_used;
                if 0 < expired_amount
                then Some (insert_expiration db employee_id lt_wolcha expired_amount
                             one_year_date (year target_date), expired_amount)
                else Some (db, 0)
              }
            else Some (db, 0)
          })"

text \<open>
  The loop of \<^verbatim>\<open>check_annual_leave_expiration\<close>, \<^verbatim>\<open>for year_offset in range(1, 50)\<close>: the
  first argument counts the iterations left, \<open>year_offset\<close> is the loop variable and
  \<open>expired_total\<close> the running sum.
\<close>

fun annual_expiration_loop ::
  "nat \<Rightarrow> int \<Rightarrow> int \<Rightarrow> date \<Rightarrow> date \<Rightarrow> database \<Rightarrow> rat \<Rightarrow> (database \<times> rat) option" where
  "annual_expiration_loop 0 year_offset employee_id hire_date target_date db expired_total =
     Some (db, expired_total)"
| "annual_expiration_loop (Suc n) year_offset employee_id hire_date target_date db expired_total =
     do {
       anniversary_date \<leftarrow> anniversary_in hire_date (year hire_date + year_offset);
       next_anniversary_date \<leftarrow> anniversary_in hire_date (year anniversary_date + 1);
       if date_le next_anniversary_date target_date then
         if expiration_exists db employee_id lt_yeoncha next_anniversary_date
         then annual_expiration_loop n (year_offset + 1) employee_id hire_date target_date
                db expired_total
         else
           let annual_leave_generated = calculate_annual_leave hire_date anniversary_date;
               total_used = used_leave_records db employee_id lt_yeoncha
                              (Some anniversary_date) next_anniversary_date;
               expired_amount = of_int annual_leave_generated - total_used
           in if 0 < expired_amount
              then annual_expiration_loop n (year_offset + 1) employee_id hire_date target_date
                     (insert_expiration db employee_id lt_yeoncha expired_amount
                        next_anniversary_date (year target_date))
                     (expired_total + expired_amount)
              else annual_expiration_loop n (year_offset + 1) employee_id hire_date target_date
                     db expired_total
       else Some (db, expired_total)
     }"

text \<open>\<^verbatim>\<open>check_annual_leave_expiration(employee_id, target_date)\<close>; the hire date is
  parsed from the employee's row.\<close>

definition check_annual_leave_expiration ::
  "database \<Rightarrow> int \<Rightarrow> date \<Rightarrow> (database \<times> rat) option" where
  "check_annual_leave_expiration db employee_id target_date =
     (case find (\<lambda>e. emp_id e = employee_id) (employees db) of
        None \<Rightarrow> Some (db, 0)
      | Some e \<Rightarrow> do {
          hire_date \<leftarrow> mk_date (year (emp_hire_date e)) (month (emp_hire_date e))
                         (day (emp_hire_date e));
          if \<not> is_one_year_or_more (emp_name e) hire_date target_date then Some (db, 0)
          else annual_expiration_loop 49 1 employee_id hire_date target_date db 0
        })"


section \<open>Usage aggregation in refresh_data\<close>

text \<open>
  The rows of \<^verbatim>\<open>attendance_records\<close> that one query of \<^verbatim>\<open>refresh_data\<close> selects:
  \<^verbatim>\<open>WHERE employee_id = ? AND work_date >= ? AND work_date < ? AND (leave_type IN
  (annual, half day, vacation) OR remarks IN (the two half-day marks))\<close>.
\<close>

definition select_leave_rows :: "database \<Rightarrow> int \<Rightarrow> date \<Rightarrow> date \<Rightarrow> attendance_record list" where
  "select_leave_rows db employee_id start_date end_date =
     filter (\<lambda>r. ar_employee_id r = employee_id \<and>
                 date_le start_date (work_date r) \<and> date_lt (work_date r) end_date \<and>
                 (leave_type r = Some lt_yeoncha \<or> leave_type r = Some lt_bancha \<or>
                  leave_type r = Some lt_hyuga \<or>
                  remarks r = Some rm_bancha_chulgeun \<or> remarks r = Some rm_bancha_toegeun))
       (attendance_records db)"

text \<open>The older form of the query, on \<^verbatim>\<open>leave_type\<close> alone.\<close>

definition select_leave_rows_by_type ::
  "database \<Rightarrow> int \<Rightarrow> date \<Rightarrow> date \<Rightarrow> attendance_record list" where
  "select_leave_rows_by_type db employee_id start_date end_date =
     filter (\<lambda>r. ar_employee_id r = employee_id \<and>
                 date_le start_date (work_date r) \<and> date_lt (work_date r) end_date \<and>
                 (leave_type r = Some lt_yeoncha \<or> leave_type r = Some lt_bancha \<or>
                  leave_type r = Some lt_hyuga))
       (attendance_records db)"

text \<open>
  The summing loop over the fetched rows, with its running amount and the set of half-day
  dates already counted:
  \<^verbatim>\<open>is_half_day = (leave_type == half or remarks == mark1 or remarks == mark2)
  if leave_type == annual or leave_type == vacation: amount += 1.0
  elif is_half_day:
      if work_date not in seen: amount += 0.5; seen.add(work_date)\<close>
\<close>

fun sum_usage :: "attendance_record list \<Rightarrow> rat \<Rightarrow> date set \<Rightarrow> rat" where
  "sum_usage [] amount seen = amount"
| "sum_usage (r # rs) amount seen =
     (let is_half_day = (leave_type r = Some lt_bancha \<or> remarks r = Some rm_bancha_chulgeun \<or>
                         remarks r = Some rm_bancha_toegeun)
      in if leave_type r = Some lt_yeoncha \<or> leave_type r = Some lt_hyuga
           then sum_usage rs (amount + 1) seen
         else if is_half_day
           then (if work_date r \<notin> seen
                 then sum_usage rs (amount + 1 / 2) (insert (work_date r) seen)
                 else sum_usage rs amount seen)
         else sum_usage rs amount seen)"

text \<open>The same loop where the source tests \<^verbatim>\<open>elif leave_type == half\<close> only.\<close>

fun sum_usage_by_type :: "attendance_record list \<Rightarrow> rat \<Rightarrow> date set \<Rightarrow> rat" where
  "sum_usage_by_type [] amount seen = amount"
| "sum_usage_by_type (r # rs) amount seen =
     (if leave_type r = Some lt_yeoncha \<or> leave_type r = Some lt_hyuga
        then sum_usage_by_type rs (amount + 1) seen
      else if leave_type r = Some lt_bancha
        then (if work_date r \<notin> seen
              then sum_usage_by_type rs (amount + 1 / 2) (insert (work_date r) seen)
              else sum_usage_by_type rs amount seen)
      else sum_usage_by_type rs amount seen)"

text \<open>One aggregation call: the query, then the loop from \<open>0.0\<close> and the empty set.\<close>

definition usage_in_window :: "database \<Rightarrow> int \<Rightarrow> date \<Rightarrow> date \<Rightarrow> rat" where
  "usage_in_window db employee_id start_date end_date =
     sum_usage (select_leave_rows db employee_id start_date end_date) 0 {}"

definition usage_in_window_by_type :: "database \<Rightarrow> int \<Rightarrow> date \<Rightarrow> date \<Rightarrow> rat" where
  "usage_in_window_by_type db employee_id start_date end_date =
     sum_usage_by_type (select_leave_rows_by_type db employee_id start_date end_date) 0 {}"

text \<open>
  \<^verbatim>\<open>monthly_usage\<close>: for each month of the selected year the window starts at the
  anniversary when the anniversary falls inside the month, at the first of the month
  otherwise.
\<close>

definition month_usage :: "database \<Rightarrow> int \<Rightarrow> int \<Rightarrow> date \<Rightarrow> int \<Rightarrow> rat option" where
  "month_usage db employee_id selected_year anniversary_date m =
     do {
       month_start \<leftarrow> mk_date selected_year m 1;
       month_end \<leftarrow> (if m < 12 then mk_date selected_year (m + 1) 1
                     else mk_date (selected_year + 1) 1 1);
       let query_start =
         (if date_lt anniversary_date month_start then month_start
          else if date_lt anniversary_date month_end then anniversary_date
          else month_start);
       Some (usage_in_window db employee_id query_start month_end)
     }"

fun monthly_usage_from :: "database \<Rightarrow> int \<Rightarrow> int \<Rightarrow> date \<Rightarrow> int list \<Rightarrow> rat list option" where
  "monthly_usage_from db employee_id selected_year anniversary_date [] = Some []"
| "monthly_usage_from db employee_id selected_year anniversary_date (m # ms) =
     do {
       u \<leftarrow> month_usage db employee_id selected_year anniversary_date m;
       us \<leftarrow> monthly_usage_from db employee_id selected_year anniversary_date ms;
       Some (u # us)
     }"

definition monthly_usage :: "database \<Rightarrow> int \<Rightarrow> int \<Rightarrow> date \<Rightarrow> rat list option" where
  "monthly_usage db employee_id selected_year anniversary_date =
     monthly_usage_from db employee_id selected_year anniversary_date
       [1, 2, 3, 4, 5, 6, 7, 8, 9, 10, 11, 12]"

text \<open>
  \<^verbatim>\<open>usage_start_date\<close> and the event-derived \<^verbatim>\<open>used_current_year\<close>: from the hire date when
  the employee was hired in the selected year, else from the anniversary when it lies in
  the selected year, else from January 1.
\<close>

definition usage_start_date :: "int \<Rightarrow> date \<Rightarrow> date \<Rightarrow> date option" where
  "usage_start_date selected_year hire_date anniversary_date =
     do {
       year_end \<leftarrow> mk_date selected_year 12 31;
       if date_le anniversary_date year_end then
         (if year hire_date = selected_year then Some hire_date else Some anniversary_date)
       else
         (if year hire_date = selected_year then Some hire_date else mk_date selected_year 1 1)
     }"

definition used_current_year_events :: "database \<Rightarrow> int \<Rightarrow> int \<Rightarrow> date \<Rightarrow> date \<Rightarrow> rat option" where
  "used_current_year_events db employee_id selected_year hire_date anniversary_date =
     do {
       start \<leftarrow> usage_start_date selected_year hire_date anniversary_date;
       next_year_start \<leftarrow> mk_date (selected_year + 1) 1 1;
       Some (usage_in_window db employee_id start next_year_start)
     }"

section \<open>Manual monthly values\<close>

text \<open>
  The loop over the manual cells of the month columns (5 is January, 16 is December).
  The state is the running sum \<^verbatim>\<open>manual_used_current_year\<close> and the warnings printed so
  far, each with its month and value.  A \<^verbatim>\<open>ValueError\<close> inside the loop body is caught and
  the cell skipped.
\<close>

definition manual_step :: "int \<Rightarrow> date \<Rightarrow> rat \<times> (int \<times> rat) list \<Rightarrow> leave_manual_value \<Rightarrow>
    rat \<times> (int \<times> rat) list" where
  "manual_step selected_year anniversary_date st cell =
     (case manual_value cell of
        None \<Rightarrow> st
      | Some month_value \<Rightarrow>
          let m = column_index cell - 4 in
          (case mk_date selected_year m 1 of
             None \<Rightarrow> st
           | Some month_start \<Rightarrow>
               (case (if m = 12 then mk_date (selected_year + 1) 1 1
                      else mk_date selected_year (m + 1) 1) of
                  None \<Rightarrow> st
                | Some month_end \<Rightarrow>
                    (case mk_date selected_year 12 31 of
                       None \<Rightarrow> st
                     | Some year_end \<Rightarrow>
                         if date_le anniversary_date year_end then
                           if date_le month_start anniversary_date \<and>
                              date_lt anniversary_date month_end
                             then (fst st, snd st @ [(m, month_value)])
                           else if date_lt anniversary_date month_start
                             then (fst st + month_value, snd st)
                           else st
                         else (fst st + month_value, snd st)))))"

definition manual_monthly_values :: "database \<Rightarrow> int \<Rightarrow> int \<Rightarrow> leave_manual_value list" where
  "manual_monthly_values db employee_id selected_year =
     filter (\<lambda>c. mv_employee_id c = employee_id \<and> mv_year c = selected_year \<and>
                 5 \<le> column_index c \<and> column_index c \<le> 16)
       (leave_manual_values db)"

definition manual_used_current_year ::
  "database \<Rightarrow> int \<Rightarrow> int \<Rightarrow> date \<Rightarrow> rat \<times> (int \<times> rat) list" where
  "manual_used_current_year db employee_id selected_year anniversary_date =
     foldl (manual_step selected_year anniversary_date) (0, [])
       (manual_monthly_values db employee_id selected_year)"


section \<open>Entitlement and carry-in in refresh_data\<close>

text \<open>
  The entitlement earned by a day, as \<^verbatim>\<open>refresh_data\<close> computes it for a year end: nothing
  before the hire date, one unit per completed month (at most 11) under 365 days of
  tenure, \<^verbatim>\<open>calculate_annual_leave\<close> from 365 days on.
\<close>

definition entitlement_at :: "date \<Rightarrow> date \<Rightarrow> int" where
  "entitlement_at hire_date d =
     (let days = days_between d hire_date
      in if days < 0 then 0
         else if days < 365 then min (max (months_passed hire_date d) 0) 11
         else calculate_annual_leave hire_date d)"

text \<open>\<^verbatim>\<open>SELECT remaining_amount FROM leave_remaining_by_year WHERE employee_id = ? AND
  year = ?\<close>\<close>

definition stored_remaining :: "database \<Rightarrow> int \<Rightarrow> int \<Rightarrow> rat option" where
  "stored_remaining db employee_id y =
     map_option remaining_amount
       (find (\<lambda>r. rm_employee_id r = employee_id \<and> rm_year r = y) (leave_remaining_by_year db))"

text \<open>
  The three terms of the balance that the source recomputes for the end of the previous
  year, under the names of its variables: \<^verbatim>\<open>annual_prev_anniversary\<close>, the entitlement of
  the previous year; \<^verbatim>\<open>used_prev_year\<close>, the leave used from the start of the previous
  year's usage window to its end; and \<^verbatim>\<open>remaining_prev_prev_year_final\<close>, what was left
  of the year before after the expirations dated up to the end of the previous year,
  clamped at zero.  The first \<^verbatim>\<open>datetime(prev_year, hire_month, hire_day)\<close> of the source
  stands outside its \<^verbatim>\<open>try\<close>, so an impossible date raises.  (The sum
  \<^verbatim>\<open>used_before_anniversary\<close> that the source computes first is never read and cannot
  raise; it is left out.)
\<close>

definition prev_year_terms :: "database \<Rightarrow> int \<Rightarrow> int \<Rightarrow> date \<Rightarrow> (int \<times> rat \<times> rat) option" where
  "prev_year_terms db selected_year employee_id hire_date =
     do {
       let prev_year = selected_year - 1;
       prev_year_end \<leftarrow> mk_date prev_year 12 31;
       first_anniversary \<leftarrow> mk_date prev_year (month hire_date) (day hire_date);
       prev_year_anniversary \<leftarrow>
         (if date_le first_anniversary hire_date then anniversary_in hire_date (prev_year + 1)
          else Some first_anniversary);
       let days_from_hire_to_prev_year_end = days_between prev_year_end hire_date;
       let annual_prev_anniversary =
         (if days_from_hire_to_prev_year_end < 0 then 0
          else if days_from_hire_to_prev_year_end < 365
            then min (max (months_passed hire_date prev_year_end) 0) 11
          else if date_le prev_year_anniversary prev_year_end
            then calculate_annual_leave hire_date prev_year_anniversary
          else calculate_annual_leave hire_date prev_year_end);
       usage_start_date_prev \<leftarrow>
         (if date_le prev_year_anniversary prev_year_end
          then (if year hire_date = prev_year then Some hire_date
                else Some prev_year_anniversary)
          else (if year hire_date = prev_year then Some hire_date
                else mk_date prev_year 1 1));
       next_year_start \<leftarrow> mk_date (prev_year + 1) 1 1;
       let used_prev_year = usage_in_window db employee_id usage_start_date_prev next_year_start;
       let prev_prev_year = prev_year - 1;
       remaining_prev_prev_year \<leftarrow>
         (if year hire_date \<le> prev_prev_year then do {
            prev_prev_year_end \<leftarrow> mk_date prev_prev_year 12 31;
            let annual_prev_prev_anniversary = entitlement_at hire_date prev_prev_year_end;
            window_start \<leftarrow> mk_date prev_prev_year 1 1;
            window_end \<leftarrow> mk_date (prev_prev_year + 1) 1 1;
            let used_prev_prev_year =
              usage_in_window_by_type db employee_id window_start window_end;
            Some (of_int annual_prev_prev_anniversary - used_prev_prev_year)
          } else Some 0);
       let total_expired_prev = total_expired_until db employee_id prev_year_end;
       let remaining_prev_prev_year_final = max 0 (remaining_prev_prev_year - total_expired_prev);
       Some (annual_prev_anniversary, used_prev_year, remaining_prev_prev_year_final)
     }"

text \<open>
  The recomputed balance at the end of the previous year:
  \<^verbatim>\<open>(annual_prev_anniversary - used_prev_year) + remaining_prev_prev_year_final\<close>.
\<close>

definition computed_remaining_prev_year :: "database \<Rightarrow> int \<Rightarrow> int \<Rightarrow> date \<Rightarrow> rat option" where
  "computed_remaining_prev_year db selected_year employee_id hire_date =
     do {
       (annual_prev_anniversary, used_prev_year, remaining_prev_prev_year_final) \<leftarrow>
         prev_year_terms db selected_year employee_id hire_date;
       Some ((of_int annual_prev_anniversary - used_prev_year) + remaining_prev_prev_year_final)
     }"

text \<open>
  \<^verbatim>\<open>remaining_prev_year\<close>, the carry-in: zero for an employee hired in the selected year
  or later; otherwise the recomputed balance, unless the selected year is 2026 or later,
  the employee counts as one year or more today and a row for the previous year is
  stored, whose amount is then used as it is.
\<close>

definition remaining_prev_year ::
  "database \<Rightarrow> date \<Rightarrow> int \<Rightarrow> int \<Rightarrow> string \<Rightarrow> date \<Rightarrow> rat option" where
  "remaining_prev_year db today selected_year employee_id name hire_date =
     (if selected_year \<le> year hire_date then Some 0
      else do {
        computed \<leftarrow> computed_remaining_prev_year db selected_year employee_id hire_date;
        if 2026 \<le> selected_year \<and> is_one_year_or_more name hire_date today then
          (case stored_remaining db employee_id (selected_year - 1) of
             Some stored \<Rightarrow> Some stored
           | None \<Rightarrow> Some computed)
        else Some computed
      })"

text \<open>
  \<^verbatim>\<open>calc_date\<close>: today when the selected year is the current year, December 31 of the
  selected year otherwise.
\<close>

definition calc_date :: "date \<Rightarrow> int \<Rightarrow> date option" where
  "calc_date today selected_year =
     (if year today < selected_year then mk_date selected_year 12 31
      else if selected_year = year today then Some today
      else mk_date selected_year 12 31)"

text \<open>
  \<^verbatim>\<open>leave_generated\<close>, the entitlement of the selected year.  The source's chain is
  \<^verbatim>\<open>if not is_one_year_or_more: ... elif is_one_year_or_more: ... else: ...\<close>; its last
  branch cannot be taken and is left out.
\<close>

definition leave_generated :: "date \<Rightarrow> int \<Rightarrow> string \<Rightarrow> date \<Rightarrow> date \<Rightarrow> int option" where
  "leave_generated today selected_year name hire_date anniversary_date =
     do {
       cd \<leftarrow> calc_date today selected_year;
       year_end \<leftarrow> mk_date selected_year 12 31;
       if \<not> is_one_year_or_more name hire_date cd then
         (if date_lt cd hire_date then Some 0
          else Some (min (max (months_passed hire_date cd) 0) 11))
       else if date_le anniversary_date year_end then
         (if selected_year \<le> 2025
            then Some (calculate_annual_leave hire_date anniversary_date)
          else if date_le anniversary_date today
            then Some (calculate_annual_leave hire_date anniversary_date)
          else Some 0)
       else
         (let prev_anniversary_year = selected_year - 1
          in if year hire_date \<le> prev_anniversary_year then do {
               prev_anniversary \<leftarrow> anniversary_in hire_date prev_anniversary_year;
               if date_lt hire_date prev_anniversary then
                 (if date_le prev_anniversary today
                  then Some (calculate_annual_leave hire_date prev_anniversary)
                  else Some 0)
               else Some 0
             } else Some 0)
     }"

section \<open>The expiration walk of refresh_data\<close>

text \<open>
  \<^verbatim>\<open>for year_offset in range(1, max_years + 1)\<close> with \<^verbatim>\<open>max_years = 50\<close>.  The start of a
  later period is \<^verbatim>\<open>datetime(hire.year + year_offset - 1, hire.month, hire.day)\<close> with no
  handler around it.
\<close>

definition leave_generated_period :: "date \<Rightarrow> int \<Rightarrow> date \<Rightarrow> date \<Rightarrow> int option" where
  "leave_generated_period hire_date year_offset period_start next_anniversary =
     do {
       eve \<leftarrow> minus_one_day next_anniversary;
       let generated = calculate_annual_leave hire_date eve;
       if 1 < year_offset then do {
         eve_start \<leftarrow> minus_one_day period_start;
         Some (generated - calculate_annual_leave hire_date eve_start)
       } else Some generated
     }"

fun expiration_walk :: "nat \<Rightarrow> int \<Rightarrow> int \<Rightarrow> date \<Rightarrow> date \<Rightarrow> database \<Rightarrow> database option" where
  "expiration_walk 0 year_offset employee_id hire_date current_date db = Some db"
| "expiration_walk (Suc n) year_offset employee_id hire_date current_date db =
     do {
       next_anniversary \<leftarrow> anniversary_in hire_date (year hire_date + year_offset);
       if date_lt current_date next_anniversary then Some db
       else if date_le next_anniversary current_date then
         if expiration_exists db employee_id lt_yeoncha next_anniversary
         then expiration_walk n (year_offset + 1) employee_id hire_date current_date db
         else do {
           period_start \<leftarrow>
             (if year_offset = 1 then Some hire_date
              else mk_date (year hire_date + year_offset - 1) (month hire_date) (day hire_date));
           generated \<leftarrow> leave_generated_period hire_date year_offset period_start next_anniversary;
           let total_used_period =
             used_leave_records db employee_id lt_yeoncha (Some period_start) next_anniversary;
           let expired_amount = max 0 (of_int generated - total_used_period);
           if 0 < expired_amount
           then expiration_walk n (year_offset + 1) employee_id hire_date current_date
                  (insert_expiration db employee_id lt_yeoncha expired_amount next_anniversary
                     (year current_date))
           else expiration_walk n (year_offset + 1) employee_id hire_date current_date db
         }
       else expiration_walk n (year_offset + 1) employee_id hire_date current_date db
     }"

section \<open>Carry-in after expiration and the remaining balance\<close>

text \<open>
  \<^verbatim>\<open>remaining_prev_year_final\<close> and \<^verbatim>\<open>total_expired_float\<close>, with the database after the
  step.  From 2026 on the part of the carry-in not used between the two anniversaries
  expires once today has reached the anniversary; up to 2025 every annual expiration dated
  up to today is deducted.
\<close>

definition carry_after_expiration ::
  "database \<Rightarrow> date \<Rightarrow> int \<Rightarrow> int \<Rightarrow> date \<Rightarrow> rat \<Rightarrow> (database \<times> rat \<times> rat) option" where
  "carry_after_expiration db today selected_year employee_id hire_date carry =
     (if 2026 \<le> selected_year then do {
        anniversary_2026 \<leftarrow> anniversary_in hire_date selected_year;
        if date_le anniversary_2026 today then do {
          anniversary_2025 \<leftarrow> anniversary_in hire_date (selected_year - 1);
          let total_used_between_anniversaries =
            used_leave_records db employee_id lt_yeoncha (Some anniversary_2025) anniversary_2026;
          let expired_2025_remaining = max 0 (carry - total_used_between_anniversaries);
          let db' =
            (if 0 < expired_2025_remaining \<and>
                \<not> expiration_exists db employee_id lt_yeoncha anniversary_2026
             then insert_expiration db employee_id lt_yeoncha expired_2025_remaining
                    anniversary_2026 selected_year
             else db);
          Some (db', max 0 (carry - expired_2025_remaining), expired_2025_remaining)
        } else Some (db, carry, 0)
      } else
        (let total_expired = total_expired_until db employee_id today
         in Some (db, max 0 (carry - total_expired), total_expired)))"

text \<open>\<^verbatim>\<open>INSERT OR REPLACE INTO leave_remaining_by_year\<close>, unique on employee and year.\<close>

definition store_remaining :: "database \<Rightarrow> int \<Rightarrow> int \<Rightarrow> rat \<Rightarrow> database" where
  "store_remaining db employee_id y amount =
     db\<lparr>leave_remaining_by_year :=
          filter (\<lambda>r. \<not> (rm_employee_id r = employee_id \<and> rm_year r = y))
            (leave_remaining_by_year db)
          @ [\<lparr>rm_employee_id = employee_id, rm_year = y, remaining_amount = amount\<rparr>]\<rparr>"

text \<open>
  The expiration narrative that the source builds next only formats text, but it builds
  its dates with constructors that can raise, two of them outside any handler.
  \<open>expiration_narrative\<close> keeps exactly these date computations: it is \<open>None\<close> where the
  narrative raises.  For a selected year before 2025 the narrative reads the stored records
  and cannot raise.
\<close>

definition narrative_period_dates :: "date \<Rightarrow> int \<Rightarrow> date \<Rightarrow> unit option" where
  "narrative_period_dates hire_date year_offset check_anniversary =
     (if year_offset = 1 then do {
        eve \<leftarrow> minus_one_day check_anniversary;
        Some ()
      } else do {
        prev_anniversary \<leftarrow>
          mk_date (year hire_date + year_offset - 1) (month hire_date) (day hire_date);
        eve \<leftarrow> minus_one_day check_anniversary;
        eve_prev \<leftarrow> minus_one_day prev_anniversary;
        if date_lt hire_date prev_anniversary then
          (if year_offset = 2 then Some ()
           else do {
             prev_prev_anniversary \<leftarrow>
               mk_date (year hire_date + year_offset - 2) (month hire_date) (day hire_date);
             eve_prev_prev \<leftarrow> minus_one_day prev_prev_anniversary;
             Some ()
           })
        else Some ()
      })"

fun narrative_loop :: "nat \<Rightarrow> int \<Rightarrow> date \<Rightarrow> int \<Rightarrow> date \<Rightarrow> unit option" where
  "narrative_loop 0 year_offset today selected_year hire_date = Some ()"
| "narrative_loop (Suc n) year_offset today selected_year hire_date =
     do {
       check_anniversary \<leftarrow> anniversary_in hire_date (year hire_date + year_offset);
       if date_le check_anniversary today \<and> year check_anniversary \<le> selected_year then
         if date_le check_anniversary hire_date
         then narrative_loop n (year_offset + 1) today selected_year hire_date
         else do {
           dates \<leftarrow> narrative_period_dates hire_date year_offset check_anniversary;
           if date_lt today check_anniversary then Some ()
           else narrative_loop n (year_offset + 1) today selected_year hire_date
         }
       else if date_lt today check_anniversary then Some ()
       else narrative_loop n (year_offset + 1) today selected_year hire_date
     }"

definition expiration_narrative :: "date \<Rightarrow> int \<Rightarrow> date \<Rightarrow> unit option" where
  "expiration_narrative today selected_year hire_date =
     (if 2025 \<le> selected_year then narrative_loop 49 1 today selected_year hire_date
      else Some ())"

text \<open>
  After the narrative the source deletes the manual cells of the three computed columns
  of the row: columns 18 and 19 always, column 17 when it holds a cell.
\<close>

definition delete_summary_cells :: "database \<Rightarrow> int \<Rightarrow> int \<Rightarrow> database" where
  "delete_summary_cells db employee_id y =
     db\<lparr>leave_manual_values :=
          filter (\<lambda>c. \<not> (mv_employee_id c = employee_id \<and> mv_year c = y \<and>
                          (column_index c = 17 \<or> column_index c = 18 \<or> column_index c = 19)))
            (leave_manual_values db)\<rparr>"

text \<open>
  One employee's row of the ledger: the values the table then shows, and the database
  after the row.  \<open>current_date\<close> is the value of that variable on entry to the loop
  body (the two checks of \<^verbatim>\<open>LeaveCalculator\<close> receive it); the walk and everything
  after it read \<^verbatim>\<open>datetime.now().date()\<close>, here \<open>today\<close>.  The row is computed on a
  connection with no write of an earlier row pending: the two checks open a connection of
  their own, and the locking between connections is not part of the model.
\<close>

record balance_row =
  row_remaining_prev_year :: rat
  row_monthly_usage :: "rat list"
  row_used_current_year :: rat
  row_leave_generated :: int
  row_total_expired :: rat
  row_remaining_prev_year_final :: rat
  row_remaining :: rat
  row_warnings :: "(int \<times> rat) list"

definition refresh_row ::
  "database \<Rightarrow> date \<Rightarrow> date \<Rightarrow> int \<Rightarrow> employee \<Rightarrow> (database \<times> balance_row) option" where
  "refresh_row db today current_date selected_year emp =
     do {
       let employee_id = emp_id emp;
       let name = emp_name emp;
       hire_date \<leftarrow> mk_date (year (emp_hire_date emp)) (month (emp_hire_date emp))
                      (day (emp_hire_date emp));
       (db1, expired_monthly) \<leftarrow>
          check_monthly_leave_expiration db employee_id hire_date current_date;
       (db2, expired_annual) \<leftarrow> check_annual_leave_expiration db1 employee_id current_date;
       anniversary_date \<leftarrow> anniversary_in hire_date selected_year;
       prev_anniversary_date \<leftarrow> anniversary_in hire_date (selected_year - 1);
       next_anniversary_date \<leftarrow>
          (if date_le anniversary_date hire_date
           then mk_date (selected_year + 1) (month hire_date) (day hire_date)
           else Some anniversary_date);
       carry \<leftarrow> remaining_prev_year db2 today selected_year employee_id name hire_date;
       months \<leftarrow> monthly_usage db2 employee_id selected_year anniversary_date;
       used_events \<leftarrow>
          used_current_year_events db2 employee_id selected_year hire_date anniversary_date;
       let (manual_used, warnings) =
          manual_used_current_year db2 employee_id selected_year anniversary_date;
       let used_current_year = used_events + manual_used;
       cd \<leftarrow> calc_date today selected_year;
       let one_year = is_one_year_or_more name hire_date cd;
       generated \<leftarrow> leave_generated today selected_year name hire_date anniversary_date;
       db3 \<leftarrow> expiration_walk 50 1 employee_id hire_date today db2;
       (db4, carry_final, total_expired) \<leftarrow>
          carry_after_expiration db3 today selected_year employee_id hire_date carry;
       let remaining = (of_int generated - used_current_year) + carry_final;
       let db5 = (if one_year then store_remaining db4 employee_id selected_year remaining
                  else db4);
       narrative \<leftarrow> expiration_narrative today selected_year hire_date;
       let db6 = delete_summary_cells db5 employee_id selected_year;
       Some (db6,
         \<lparr>row_remaining_prev_year = carry, row_monthly_usage = months,
          row_used_current_year = used_current_year, row_leave_generated = generated,
          row_total_expired = total_expired, row_remaining_prev_year_final = carry_final,
          row_remaining = remaining,
          row_warnings = warnings\<rparr>)
     }"


section \<open>Concrete scenarios\<close>

abbreviation ymd :: "int \<Rightarrow> int \<Rightarrow> int \<Rightarrow> date" where
  "ymd y m d \<equiv> \<lparr>year = y, month = m, day = d\<rparr>"

text \<open>An employee hired on 2020-01-01 with no leave taken and nothing expired yet.\<close>

definition hired_2020 :: employee where
  "hired_2020 = \<lparr>emp_id = 1, emp_name = ''Kim'', emp_hire_date = ymd 2020 1 1\<rparr>"

definition db_hired_2020 :: database where
  "db_hired_2020 =
     \<lparr>employees = [hired_2020], attendance_records = [], leave_records = [],
      leave_expirations = [], leave_manual_values = [], leave_remaining_by_year = []\<rparr>"

definition db_hired_2020_checked :: database where
  "db_hired_2020_checked =
     db_hired_2020\<lparr>leave_expirations :=
       [\<lparr>le_employee_id = 1, le_leave_type = lt_yeoncha, expired_amount = 15,
         expiration_date = ymd 2022 1 1, le_year = 2023\<rparr>,
        \<lparr>le_employee_id = 1, le_leave_type = lt_yeoncha, expired_amount = 15,
         expiration_date = ymd 2023 1 1, le_year = 2023\<rparr>]\<rparr>"




text \<open>Manual cells for January, March and May 2025 of employee 1.\<close>

definition db_manual_cells :: database where
  "db_manual_cells =
     \<lparr>employees = [hired_2020], attendance_records = [], leave_records = [],
      leave_expirations = [],
      leave_manual_values =
        [\<lparr>mv_employee_id = 1, mv_year = 2025, column_index = 5, manual_value = Some 2\<rparr>,
         \<lparr>mv_employee_id = 1, mv_year = 2025, column_index = 7, manual_value = Some 3\<rparr>,
         \<lparr>mv_employee_id = 1, mv_year = 2025, column_index = 9, manual_value = Some (1 / 2)\<rparr>],
      leave_remaining_by_year = []\<rparr>"

text \<open>
  An employee hired on 2024-06-01 who takes 22 days of annual leave in July 2025.  The
  ledger of 2025 is shown on 2025-12-20 and stores the balance of 2025; the ledger of 2026
  is shown on 2026-01-05.  The databases after the two rows, and the two rows.
\<close>

definition hired_2024 :: employee where
  "hired_2024 = \<lparr>emp_id = 3, emp_name = ''Jung'', emp_hire_date = ymd 2024 6 1\<rparr>"

definition leave_days_july_2025 :: "attendance_record list" where
  "leave_days_july_2025 =
     map (\<lambda>d. \<lparr>ar_employee_id = 3, work_date = ymd 2025 7 d, leave_type = Some lt_yeoncha,
                 remarks = None\<rparr>) [1 .. 22]"

definition db_overdrawn :: database where
  "db_overdrawn =
     \<lparr>employees = [hired_2024], attendance_records = leave_days_july_2025, leave_records = [],
      leave_expirations = [], leave_manual_values = [], leave_remaining_by_year = []\<rparr>"

definition db_overdrawn_2025 :: database where
  "db_overdrawn_2025 =
     db_overdrawn\<lparr>leave_remaining_by_year :=
       [\<lparr>rm_employee_id = 3, rm_year = 2025, remaining_amount = - 1\<rparr>]\<rparr>"

definition row_overdrawn_2025 :: balance_row where
  "row_overdrawn_2025 =
     \<lparr>row_remaining_prev_year = 6,
      row_monthly_usage = [0, 0, 0, 0, 0, 0, 22, 0, 0, 0, 0, 0],
      row_used_current_year = 22, row_leave_generated = 15, row_total_expired = 0,
      row_remaining_prev_year_final = 6, row_remaining = - 1, row_warnings = []\<rparr>"

definition db_overdrawn_2026 :: database where
  "db_overdrawn_2026 =
     db_overdrawn\<lparr>leave_expirations :=
       [\<lparr>le_employee_id = 3, le_leave_type = lt_yeoncha, expired_amount = 15,
         expiration_date = ymd 2026 6 1, le_year = 2026\<rparr>],
      leave_remaining_by_year :=
       [\<lparr>rm_employee_id = 3, rm_year = 2025, remaining_amount = - 1\<rparr>,
        \<lparr>rm_employee_id = 3, rm_year = 2026, remaining_amount = - 1\<rparr>]\<rparr>"

definition row_overdrawn_2026 :: balance_row where
  "row_overdrawn_2026 =
     \<lparr>row_remaining_prev_year = - 1,
      row_monthly_usage = [0, 0, 0, 0, 0, 0, 0, 0, 0, 0, 0, 0],
      row_used_current_year = 0, row_leave_generated = 0, row_total_expired = 0,
      row_remaining_prev_year_final = - 1, row_remaining = - 1, row_warnings = []\<rparr>"

text \<open>An employee hired on 2027-03-01 with no leave taken; 2028 is a leap year.\<close>

definition hired_2027 :: employee where
  "hired_2027 = \<lparr>emp_id = 5, emp_name = ''Choi'', emp_hire_date = ymd 2027 3 1\<rparr>"

definition db_hired_2027 :: database where
  "db_hired_2027 =
     \<lparr>employees = [hired_2027], attendance_records = [], leave_records = [],
      leave_expirations = [], leave_manual_values = [], leave_remaining_by_year = []\<rparr>"

section \<open>Notions used in the statements\<close>

text \<open>
  A row counts as a full day when the loop's first test holds, and as a half day when it
  reaches the second test and passes it.
\<close>

definition is_full_day :: "attendance_record \<Rightarrow> bool" where
  "is_full_day r \<longleftrightarrow> leave_type r = Some lt_yeoncha \<or> leave_type r = Some lt_hyuga"

definition is_half_day :: "attendance_record \<Rightarrow> bool" where
  "is_half_day r \<longleftrightarrow>
     leave_type r = Some lt_bancha \<or> remarks r = Some rm_bancha_chulgeun \<or>
     remarks r = Some rm_bancha_toegeun"

definition half_day_dates :: "attendance_record list \<Rightarrow> date set" where
  "half_day_dates rows = work_date ` {r \<in> set rows. \<not> is_full_day r \<and> is_half_day r}"

text \<open>Two half-day rows of the same day, one by its leave type and one by its remark.\<close>

definition half_day_by_type :: attendance_record where
  "half_day_by_type =
     \<lparr>ar_employee_id = 1, work_date = ymd 2025 3 3, leave_type = Some lt_bancha,
      remarks = None\<rparr>"

definition half_day_by_remark :: attendance_record where
  "half_day_by_remark =
     \<lparr>ar_employee_id = 1, work_date = ymd 2025 3 3, leave_type = None,
      remarks = Some rm_bancha_toegeun\<rparr>"

text \<open>
  The month of a manual cell, and the cells that hold a number: those of a month after
  the anniversary month, and those of the anniversary month itself.
\<close>

definition override_month :: "leave_manual_value \<Rightarrow> int" where
  "override_month c = column_index c - 4"

definition override_value :: "leave_manual_value \<Rightarrow> rat" where
  "override_value c = (case manual_value c of Some v \<Rightarrow> v | None \<Rightarrow> 0)"

definition overrides_after :: "date \<Rightarrow> leave_manual_value list \<Rightarrow> leave_manual_value list" where
  "overrides_after anniversary_date cells =
     filter (\<lambda>c. manual_value c \<noteq> None \<and> month anniversary_date < override_month c) cells"

definition overrides_in_month :: "date \<Rightarrow> leave_manual_value list \<Rightarrow> leave_manual_value list" where
  "overrides_in_month anniversary_date cells =
     filter (\<lambda>c. manual_value c \<noteq> None \<and> override_month c = month anniversary_date) cells"

text \<open>
  The key of an expiration record, and the amount that each of the two walks assigns to
  the boundary \<open>boundary\<close>.  In \<^verbatim>\<open>check_annual_leave_expiration\<close> the period starts at the
  anniversary one year before the boundary and the generated leave is the entitlement at
  that start.  In the walk of \<^verbatim>\<open>refresh_data\<close> the generated leave of the first period is
  the entitlement on the eve of the boundary, and for a later period the difference of the
  entitlements on the eves of its end and of its start.
\<close>

definition expiration_key :: "leave_expiration \<Rightarrow> int \<times> string \<times> date" where
  "expiration_key r = (le_employee_id r, le_leave_type r, expiration_date r)"

definition annual_expiration_amount :: "database \<Rightarrow> int \<Rightarrow> date \<Rightarrow> date \<Rightarrow> rat option" where
  "annual_expiration_amount db employee_id hire_date boundary =
     (case anniversary_in hire_date (year boundary - 1) of
        None \<Rightarrow> None
      | Some period_start \<Rightarrow>
          Some (of_int (calculate_annual_leave hire_date period_start)
                - used_leave_records db employee_id lt_yeoncha (Some period_start) boundary))"

definition walk_expiration_amount :: "database \<Rightarrow> int \<Rightarrow> date \<Rightarrow> date \<Rightarrow> rat option" where
  "walk_expiration_amount db employee_id hire_date boundary =
     (let n = year boundary - year hire_date in
      case (if n = 1 then Some hire_date
            else mk_date (year boundary - 1) (month hire_date) (day hire_date)) of
        None \<Rightarrow> None
      | Some period_start \<Rightarrow>
          (case leave_generated_period hire_date n period_start boundary of
             None \<Rightarrow> None
           | Some generated \<Rightarrow>
               Some (max 0 (of_int generated
                 - used_leave_records db employee_id lt_yeoncha (Some period_start) boundary))))"

text \<open>The amount that the monthly check computes for the one-year date \<open>d\<close> and its eve.\<close>

definition monthly_expired :: "database \<Rightarrow> int \<Rightarrow> date \<Rightarrow> date \<Rightarrow> date \<Rightarrow> rat" where
  "monthly_expired db e h d eve =
     of_int (min 11 (calculate_monthly_leave h eve)) - used_leave_records db e lt_wolcha None d"

text \<open>The same employee after the walk of \<^verbatim>\<open>refresh_data\<close> on 2022-06-01.\<close>

definition db_hired_2020_walked :: database where
  "db_hired_2020_walked =
     db_hired_2020\<lparr>leave_expirations :=
       [\<lparr>le_employee_id = 1, le_leave_type = lt_yeoncha, expired_amount = 15,
         expiration_date = ymd 2022 1 1, le_year = 2022\<rparr>]\<rparr>"

text \<open>
  An employee hired on 2025-01-06 who has taken three full days of leave by 2025-03-20,
  and the row of 2025 that the ledger shows on that day.
\<close>

definition hired_2025 :: employee where
  "hired_2025 = \<lparr>emp_id = 7, emp_name = ''Park'', emp_hire_date = ymd 2025 1 6\<rparr>"

definition db_overuse :: database where
  "db_overuse =
     \<lparr>employees = [hired_2025],
      attendance_records =
        [\<lparr>ar_employee_id = 7, work_date = ymd 2025 2 3, leave_type = Some lt_yeoncha,
          remarks = None\<rparr>,
         \<lparr>ar_employee_id = 7, work_date = ymd 2025 2 4, leave_type = Some lt_yeoncha,
          remarks = None\<rparr>,
         \<lparr>ar_employee_id = 7, work_date = ymd 2025 3 10, leave_type = Some lt_hyuga,
          remarks = None\<rparr>],
      leave_records = [], leave_expirations = [], leave_manual_values = [],
      leave_remaining_by_year = []\<rparr>"

definition row_overuse :: balance_row where
  "row_overuse =
     \<lparr>row_remaining_prev_year = 0,
      row_monthly_usage = [0, 2, 1, 0, 0, 0, 0, 0, 0, 0, 0, 0],
      row_used_current_year = 3, row_leave_generated = 2, row_total_expired = 0,
      row_remaining_prev_year_final = 0, row_remaining = - 1, row_warnings = []\<rparr>"

text \<open>The position of a date in its year.\<close>

definition day_of_year :: "date \<Rightarrow> int" where
  "day_of_year d = days_before_month (year d) (month d) + day d"

text \<open>The first name of the list \<^verbatim>\<open>ONE_YEAR_OR_MORE_EMPLOYEES\<close>.\<close>

definition listed_name :: string where
  "listed_name =
     [CHR 0xEC, CHR 0xA0, CHR 0x84, CHR 0xEA, CHR 0xB8, CHR 0x88, CHR 0xED, CHR 0x9D, CHR 0xAC]"

text \<open>The entitlement of \<^verbatim>\<open>calculate_annual_leave\<close> as a function of the full years passed.\<close>

definition tier :: "int \<Rightarrow> int" where
  "tier n = (if n < 1 then 0 else min (if 3 \<le> n then 15 + ((n - 3) div 2 + 1) else 15) 25)"

section \<open>Tiered annual entitlement\<close>

text \<open>
  C2.  At the anniversary n of the hire date the annual entitlement should be 15 for n = 1
  and n = 2, and 15 + (n - 3) div 2 + 1 from n = 3 on, capped at 25.  For a hire date of
  February 29 the anniversary that the program itself computes in a common year is
  February 28, and on that day \<^verbatim>\<open>calculate_annual_leave\<close> still counts one year less:
  at the first anniversary it returns 0, not 15.
\<close>

theorem annual_leave_at_leap_day_anniversary:
  "anniversary_in (ymd 2024 2 29) (2024 + 1) = Some (ymd 2025 2 28) \<and>
   calculate_annual_leave (ymd 2024 2 29) (ymd 2025 2 28) = 0"
  by code_simp

section \<open>Monotonicity of the entitlement\<close>

text \<open>
  C7.  The entitlement earned to date should never decrease from one day to a later one.
  An employee hired on 2027-03-01 has 364 days of tenure on 2028-02-28, and the ledger of
  2028 shown on that day gives 11 monthly units.  The next day, 2028-02-29, is day 365:
  the annual rule applies, the anniversary 2028-03-01 has not come yet, and the same
  ledger gives 0.
\<close>

theorem ledger_entitlement_drops_at_day_365:
  "date_lt (ymd 2028 2 28) (ymd 2028 2 29) \<and>
   days_between (ymd 2028 2 28) (ymd 2027 3 1) = 364 \<and>
   days_between (ymd 2028 2 29) (ymd 2027 3 1) = 365 \<and>
   anniversary_in (ymd 2027 3 1) 2028 = Some (ymd 2028 3 1) \<and>
   leave_generated (ymd 2028 2 28) 2028 ''Choi'' (ymd 2027 3 1) (ymd 2028 3 1) = Some 11 \<and>
   leave_generated (ymd 2028 2 29) 2028 ''Choi'' (ymd 2027 3 1) (ymd 2028 3 1) = Some 0 \<and>
   map_option (row_leave_generated \<circ> snd)
     (refresh_row db_hired_2027 (ymd 2028 2 28) (ymd 2028 11 1) 2028 hired_2027) = Some 11 \<and>
   map_option (row_leave_generated \<circ> snd)
     (refresh_row db_hired_2027 (ymd 2028 2 29) (ymd 2028 11 1) 2028 hired_2027) = Some 0"
  by code_simp

section \<open>Half-day deduplication\<close>

lemma half_day_dates_Nil: "half_day_dates [] = {}"
  by (simp add: half_day_dates_def)

lemma half_day_dates_Cons:
  "half_day_dates (r # rs) =
     (if \<not> is_full_day r \<and> is_half_day r then insert (work_date r) (half_day_dates rs)
      else half_day_dates rs)"
  by (auto simp: half_day_dates_def)

lemma finite_half_day_dates: "finite (half_day_dates rows)"
  by (simp add: half_day_dates_def)

lemma sum_usage_general:
  "sum_usage rows amount seen =
     amount + of_nat (length (filter is_full_day rows))
            + of_nat (card (half_day_dates rows - seen)) / 2"
proof (induction rows arbitrary: amount seen)
  case Nil
  show ?case by (simp add: half_day_dates_Nil)
next
  case (Cons r rs)
  show ?case
  proof (cases "is_full_day r")
    case True
    then show ?thesis
      using Cons.IH [of "amount + 1" seen]
      by (simp add: is_full_day_def half_day_dates_Cons)
  next
    case full: False
    show ?thesis
    proof (cases "is_half_day r")
      case False
      then show ?thesis
        using full Cons.IH [of amount seen]
        by (simp add: is_full_day_def is_half_day_def half_day_dates_Cons)
    next
      case half: True
      show ?thesis
      proof (cases "work_date r \<in> seen")
        case True
        then have "insert (work_date r) (half_day_dates rs) - seen = half_day_dates rs - seen"
          by auto
        then show ?thesis
          using full half True Cons.IH [of amount seen]
          by (simp add: is_full_day_def is_half_day_def half_day_dates_Cons)
      next
        case False
        have eq: "insert (work_date r) (half_day_dates rs) - seen =
                  insert (work_date r) (half_day_dates rs - insert (work_date r) seen)"
          using False by auto
        have "card (insert (work_date r) (half_day_dates rs) - seen) =
              Suc (card (half_day_dates rs - insert (work_date r) seen))"
          unfolding eq by (rule card_insert_disjoint) (auto simp: finite_half_day_dates)
        then show ?thesis
          using full half False Cons.IH [of "amount + 1 / 2" "insert (work_date r) seen"]
          by (simp add: is_full_day_def is_half_day_def half_day_dates_Cons add_divide_distrib)
      qed
    qed
  qed
qed

lemma half_day_dates_mset:
  assumes "mset rows' = mset rows"
  shows "half_day_dates rows' = half_day_dates rows"
proof -
  from assms have "set rows' = set rows" by (rule mset_eq_setD)
  then show ?thesis by (simp only: half_day_dates_def)
qed

lemma length_filter_mset:
  assumes "mset rows' = mset rows"
  shows "length (filter P rows') = length (filter P rows)"
proof -
  from assms have "mset (filter P rows') = mset (filter P rows)"
    by (simp only: mset_filter)
  then have "size (mset (filter P rows')) = size (mset (filter P rows))"
    by (rule arg_cong)
  then show ?thesis by (simp only: size_mset)
qed

text \<open>
  C5.  One aggregation call adds 1 for every full-day row and one half for every distinct
  date that has a half-day row, however many half-day rows the date has; the result is the
  same for every order of the rows.
\<close>

theorem usage_counts_distinct_half_day_dates:
  "sum_usage rows 0 {} =
     of_nat (length (filter is_full_day rows)) + of_nat (card (half_day_dates rows)) / 2 \<and>
   (mset rows' = mset rows \<longrightarrow> sum_usage rows' 0 {} = sum_usage rows 0 {})"
proof (intro conjI impI)
  show "sum_usage rows 0 {} =
     of_nat (length (filter is_full_day rows)) + of_nat (card (half_day_dates rows)) / 2"
    by (simp add: sum_usage_general)
  assume perm: "mset rows' = mset rows"
  have "half_day_dates rows' = half_day_dates rows"
    using perm by (rule half_day_dates_mset)
  moreover have "length (filter is_full_day rows') = length (filter is_full_day rows)"
    using perm by (rule length_filter_mset)
  ultimately show "sum_usage rows' 0 {} = sum_usage rows 0 {}"
    by (simp only: sum_usage_general)
qed

theorem usage_counts_distinct_half_day_dates_witness:
  "mset [half_day_by_remark, half_day_by_type] = mset [half_day_by_type, half_day_by_remark] \<and>
   sum_usage [half_day_by_remark, half_day_by_type] 0 {} = 1 / 2 \<and>
   sum_usage [half_day_by_type, half_day_by_remark] 0 {} = 1 / 2"
proof -
  have perm: "mset [half_day_by_remark, half_day_by_type] =
              mset [half_day_by_type, half_day_by_remark]"
    by (simp add: add_mset_commute)
  have val: "sum_usage [half_day_by_type, half_day_by_remark] 0 {} = 1 / 2"
    by code_simp
  have eq: "sum_usage [half_day_by_remark, half_day_by_type] 0 {} =
            sum_usage [half_day_by_type, half_day_by_remark] 0 {}"
    by (rule usage_counts_distinct_half_day_dates [THEN conjunct2, THEN mp, OF perm])
  show ?thesis
  proof (intro conjI)
    show "mset [half_day_by_remark, half_day_by_type] =
          mset [half_day_by_type, half_day_by_remark]"
      by (rule perm)
    show "sum_usage [half_day_by_remark, half_day_by_type] 0 {} = 1 / 2"
      by (simp only: eq val)
    show "sum_usage [half_day_by_type, half_day_by_remark] 0 {} = 1 / 2"
      by (rule val)
  qed
qed

section \<open>Calendar facts\<close>

lemma mk_date_Some: "mk_date y m d = Some r \<longleftrightarrow> r = ymd y m d \<and> valid_date (ymd y m d)"
  by (auto simp: mk_date_def Let_def)

lemma anniversary_in_Some:
  assumes "anniversary_in hire y = Some a"
  shows "valid_date a \<and> year a = y \<and> month a = month hire"
  using assms by (auto simp: anniversary_in_def mk_date_Some split: option.splits)

lemma mk_date_first_of_month:
  "1 \<le> y \<Longrightarrow> y \<le> 9999 \<Longrightarrow> 1 \<le> m \<Longrightarrow> m \<le> 12 \<Longrightarrow> mk_date y m 1 = Some (ymd y m 1)"
  by (simp add: mk_date_def valid_date_def days_in_month_def Let_def)

lemma mk_date_year_end:
  "1 \<le> y \<Longrightarrow> y \<le> 9999 \<Longrightarrow> mk_date y 12 31 = Some (ymd y 12 31)"
  by (simp add: mk_date_def valid_date_def days_in_month_def Let_def)

lemma days_in_month_le_31: "days_in_month y m \<le> 31"
  by (simp add: days_in_month_def)

section \<open>Manual overrides\<close>

lemma manual_step_rule:
  assumes a: "valid_date a" and y: "year a < 9999"
    and col: "5 \<le> column_index c" "column_index c \<le> 16"
  shows "manual_step (year a) a st c =
     (case manual_value c of
        None \<Rightarrow> st
      | Some v \<Rightarrow>
          if override_month c = month a then (fst st, snd st @ [(override_month c, v)])
          else if month a < override_month c then (fst st + v, snd st)
          else st)"
proof (cases "manual_value c")
  case None
  then show ?thesis by (simp add: manual_step_def)
next
  case (Some v)
  define m where "m = column_index c - 4"
  have m: "1 \<le> m" "m \<le> 12" using col by (simp_all add: m_def)
  have ya: "1 \<le> year a" "year a \<le> 9999" "1 \<le> month a" "month a \<le> 12" "1 \<le> day a" "day a \<le> 31"
    using a days_in_month_le_31 [of "year a" "month a"] by (auto simp: valid_date_def)
  have s: "mk_date (year a) m 1 = Some (ymd (year a) m 1)"
    using m ya by (simp add: mk_date_first_of_month)
  have e: "(if m = 12 then mk_date (year a + 1) 1 1 else mk_date (year a) (m + 1) 1) =
           Some (if m = 12 then ymd (year a + 1) 1 1 else ymd (year a) (m + 1) 1)"
    using m ya y by (simp add: mk_date_first_of_month)
  have ye: "mk_date (year a) 12 31 = Some (ymd (year a) 12 31)"
    using ya by (simp add: mk_date_year_end)
  have le_end: "date_le a (ymd (year a) 12 31)"
    using ya by (cases a) (auto simp: date_le_def date_lt_def)
  have c1: "date_le (ymd (year a) m 1) a \<and>
            date_lt a (if m = 12 then ymd (year a + 1) 1 1 else ymd (year a) (m + 1) 1)
            \<longleftrightarrow> m = month a"
    using ya m by (cases a) (auto simp: date_le_def date_lt_def)
  have c2: "date_lt a (ymd (year a) m 1) \<longleftrightarrow> month a < m"
    using ya by (auto simp: date_lt_def)
  show ?thesis
    unfolding manual_step_def Some override_month_def m_def [symmetric]
    using c1 c2 le_end by (simp add: s e ye Let_def m_def [symmetric])
qed

lemma manual_fold:
  assumes a: "valid_date a" and y: "year a < 9999"
    and cols: "\<forall>c \<in> set cells. 5 \<le> column_index c \<and> column_index c \<le> 16"
  shows "foldl (manual_step (year a) a) (acc, ws) cells =
     (acc + sum_list (map override_value (overrides_after a cells)),
      ws @ map (\<lambda>c. (override_month c, override_value c)) (overrides_in_month a cells))"
  using cols
proof (induction cells arbitrary: acc ws)
  case Nil
  show ?case by (simp add: overrides_after_def overrides_in_month_def)
next
  case (Cons c cs)
  have col: "5 \<le> column_index c" "column_index c \<le> 16" using Cons.prems by simp_all
  have rest: "\<forall>c \<in> set cs. 5 \<le> column_index c \<and> column_index c \<le> 16"
    using Cons.prems by simp
  show ?case
  proof (cases "manual_value c")
    case None
    then show ?thesis
      using Cons.IH [OF rest, of acc ws] manual_step_rule [OF a y col, of "(acc, ws)"]
      by (simp add: overrides_after_def overrides_in_month_def)
  next
    case (Some v)
    then show ?thesis
      using Cons.IH [OF rest] manual_step_rule [OF a y col, of "(acc, ws)"]
      by (simp add: overrides_after_def overrides_in_month_def override_value_def)
  qed
qed

text \<open>
  C8 (amended).  A manual cell of the anniversary month is left out of the usage of the
  year and a warning is printed for it; a cell of an earlier month is left out without any
  warning; a cell of a later month is added to the event-derived usage.  The anniversary
  is always a day of the selected year, so no other case arises.
\<close>

theorem manual_override_rule:
  assumes "anniversary_in hire_date selected_year = Some anniversary_date"
    and "selected_year < 9999"
    and "cells = manual_monthly_values db employee_id selected_year"
  shows "manual_used_current_year db employee_id selected_year anniversary_date =
     (sum_list (map override_value (overrides_after anniversary_date cells)),
      map (\<lambda>c. (override_month c, override_value c))
        (overrides_in_month anniversary_date cells))"
proof -
  from assms(1) have a: "valid_date anniversary_date" and y: "year anniversary_date = selected_year"
    using anniversary_in_Some by blast+
  have cols: "\<forall>c \<in> set cells. 5 \<le> column_index c \<and> column_index c \<le> 16"
    unfolding assms(3) by (simp add: manual_monthly_values_def)
  have "year anniversary_date < 9999" using y assms(2) by simp
  from manual_fold [OF a this cols, of 0 "[]"] show ?thesis
    by (simp add: manual_used_current_year_def y assms(3))
qed

text \<open>
  The claim as stated promises a warning for every excluded cell.  With the anniversary
  on 2025-03-15 the January cell is excluded and the only warning is the one for March.
\<close>

theorem manual_value_before_anniversary_month:
  "anniversary_in (ymd 2020 3 15) 2025 = Some (ymd 2025 3 15) \<and>
   manual_monthly_values db_manual_cells 1 2025 = leave_manual_values db_manual_cells \<and>
   manual_used_current_year db_manual_cells 1 2025 (ymd 2025 3 15) = (1 / 2, [(3, 3)])"
  by code_simp

theorem manual_override_rule_witness:
  "anniversary_in (ymd 2020 3 15) 2025 = Some (ymd 2025 3 15) \<and> (2025 :: int) < 9999 \<and>
   manual_used_current_year db_manual_cells 1 2025 (ymd 2025 3 15) =
     (sum_list (map override_value
        (overrides_after (ymd 2025 3 15) (manual_monthly_values db_manual_cells 1 2025))),
      map (\<lambda>c. (override_month c, override_value c))
        (overrides_in_month (ymd 2025 3 15) (manual_monthly_values db_manual_cells 1 2025)))"
proof -
  have h: "anniversary_in (ymd 2020 3 15) 2025 = Some (ymd 2025 3 15)"
    by code_simp
  have y: "(2025 :: int) < 9999" by simp
  from manual_override_rule [OF h y refl, of db_manual_cells 1] h y show ?thesis
    by (intro conjI)
qed

section \<open>Runs of the annual expiration check\<close>

lemma leave_expirations_insert:
  "leave_expirations (insert_expiration db e k x d y) =
     leave_expirations db @
       [\<lparr>le_employee_id = e, le_leave_type = k, expired_amount = x, expiration_date = d,
         le_year = y\<rparr>]"
  by (simp add: insert_expiration_def)

lemma leave_records_insert: "leave_records (insert_expiration db e k x d y) = leave_records db"
  by (simp add: insert_expiration_def)

lemma employees_insert: "employees (insert_expiration db e k x d y) = employees db"
  by (simp add: insert_expiration_def)

lemma used_leave_records_cong:
  "leave_records db' = leave_records db \<Longrightarrow>
   used_leave_records db' e k s u = used_leave_records db e k s u"
  by (simp add: used_leave_records_def)

lemma expiration_exists_iff:
  "expiration_exists db e k d \<longleftrightarrow> (e, k, d) \<in> expiration_key ` set (leave_expirations db)"
  by (auto simp: expiration_exists_def expiration_key_def image_iff)

lemma insert_expiration_as_update:
  "insert_expiration db e k x d y =
     db\<lparr>leave_expirations := leave_expirations db @
       [\<lparr>le_employee_id = e, le_leave_type = k, expired_amount = x, expiration_date = d,
         le_year = y\<rparr>]\<rparr>"
  by (simp add: insert_expiration_def)

text \<open>What one run of the annual loop appends.\<close>

lemma annual_loop_appends:
  assumes "annual_expiration_loop n k e h t db tot = Some (db', tot')"
  shows "\<exists>new. db' = db\<lparr>leave_expirations := leave_expirations db @ new\<rparr> \<and>
           (\<forall>r \<in> set new.
              le_employee_id r = e \<and> le_leave_type r = lt_yeoncha \<and>
              year h + k < year (expiration_date r) \<and>
              \<not> expiration_exists db e lt_yeoncha (expiration_date r) \<and>
              0 < expired_amount r \<and>
              annual_expiration_amount db e h (expiration_date r) = Some (expired_amount r)) \<and>
           distinct (map expiration_date new)"
  using assms
proof (induction n arbitrary: k db tot)
  case 0
  then have "db' = db" by simp
  then show ?case by (intro exI [of _ "[]"]) simp
next
  case (Suc n)
  define X where "X a na = of_int (calculate_annual_leave h a)
                          - used_leave_records db e lt_yeoncha (Some a) na" for a na
  from Suc.prems [unfolded annual_expiration_loop.simps Let_def] obtain a na where
    a: "anniversary_in h (year h + k) = Some a" and
    na: "anniversary_in h (year a + 1) = Some na" and
    body: "(if date_le na t then
             if expiration_exists db e lt_yeoncha na
             then annual_expiration_loop n (k + 1) e h t db tot
             else if 0 < X a na
                     then annual_expiration_loop n (k + 1) e h t
                            (insert_expiration db e lt_yeoncha (X a na) na (year t)) (tot + X a na)
                     else annual_expiration_loop n (k + 1) e h t db tot
           else Some (db, tot)) = Some (db', tot')"
    unfolding X_def by (auto simp: bind_eq_Some_conv)
  have ya: "year a = year h + k" using anniversary_in_Some [OF a] by simp
  have yna: "year na = year h + k + 1" using anniversary_in_Some [OF na] ya by simp
  define x where "x = X a na"
  have x_def': "x = of_int (calculate_annual_leave h a)
                          - used_leave_records db e lt_yeoncha (Some a) na"
    by (simp add: x_def X_def)
  consider (stop) "\<not> date_le na t"
    | (skip) "date_le na t" "expiration_exists db e lt_yeoncha na \<or> \<not> 0 < x"
    | (ins) "date_le na t" "\<not> expiration_exists db e lt_yeoncha na" "0 < x"
    by blast
  then show ?case
  proof cases
    case stop
    with body have "db' = db" by simp
    then show ?thesis by (intro exI [of _ "[]"]) simp
  next
    case skip
    with body have "annual_expiration_loop n (k + 1) e h t db tot = Some (db', tot')"
      by (auto simp: x_def split: if_splits)
    from Suc.IH [OF this] obtain new where
      new: "db' = db\<lparr>leave_expirations := leave_expirations db @ new\<rparr>"
        "\<forall>r \<in> set new.
              le_employee_id r = e \<and> le_leave_type r = lt_yeoncha \<and>
              year h + (k + 1) < year (expiration_date r) \<and>
              \<not> expiration_exists db e lt_yeoncha (expiration_date r) \<and>
              0 < expired_amount r \<and>
              annual_expiration_amount db e h (expiration_date r) = Some (expired_amount r)"
        "distinct (map expiration_date new)"
      by blast
    show ?thesis
      by (rule exI [of _ new]) (use new in force)
  next
    case ins
    define db1 where "db1 = insert_expiration db e lt_yeoncha x na (year t)"
    define r0 where "r0 = \<lparr>le_employee_id = e, le_leave_type = lt_yeoncha, expired_amount = x,
         expiration_date = na, le_year = year t\<rparr>"
    from ins body have "annual_expiration_loop n (k + 1) e h t db1 (tot + x) = Some (db', tot')"
      by (simp add: x_def db1_def)
    from Suc.IH [OF this] obtain new where
      new: "db' = db1\<lparr>leave_expirations := leave_expirations db1 @ new\<rparr>"
        "\<forall>r \<in> set new.
              le_employee_id r = e \<and> le_leave_type r = lt_yeoncha \<and>
              year h + (k + 1) < year (expiration_date r) \<and>
              \<not> expiration_exists db1 e lt_yeoncha (expiration_date r) \<and>
              0 < expired_amount r \<and>
              annual_expiration_amount db1 e h (expiration_date r) = Some (expired_amount r)"
        "distinct (map expiration_date new)"
      by blast
    have db1: "leave_expirations db1 = leave_expirations db @ [r0]"
      "leave_records db1 = leave_records db"
      by (simp_all add: db1_def r0_def insert_expiration_def)
    have amt: "annual_expiration_amount db1 e h d = annual_expiration_amount db e h d" for d
      by (simp add: annual_expiration_amount_def used_leave_records_cong [OF db1(2)]
            split: option.splits)
    have ex: "expiration_exists db e lt_yeoncha d" if "expiration_exists db1 e lt_yeoncha d" "d \<noteq> na" for d
      using that by (auto simp: expiration_exists_def db1 r0_def)
    have ex': "\<not> expiration_exists db e lt_yeoncha d" if "\<not> expiration_exists db1 e lt_yeoncha d" for d
      using that by (auto simp: expiration_exists_def db1)
    have r0: "annual_expiration_amount db e h na = Some x"
    proof -
      have "anniversary_in h (year na - 1) = Some a" using a yna by simp
      then show ?thesis by (simp add: annual_expiration_amount_def x_def')
    qed
    have eq: "db' = db\<lparr>leave_expirations := leave_expirations db @ (r0 # new)\<rparr>"
      by (simp add: new(1) db1_def r0_def insert_expiration_def)
    have fresh: "na \<notin> expiration_date ` set new"
      using new(2) yna by fastforce
    have dist: "distinct (map expiration_date (r0 # new))"
      using new(3) fresh by (simp add: r0_def)
    have props: "le_employee_id r = e \<and> le_leave_type r = lt_yeoncha \<and>
              year h + k < year (expiration_date r) \<and>
              \<not> expiration_exists db e lt_yeoncha (expiration_date r) \<and>
              0 < expired_amount r \<and>
              annual_expiration_amount db e h (expiration_date r) = Some (expired_amount r)"
      if "r \<in> set (r0 # new)" for r
    proof -
      from that consider "r = r0" | "r \<in> set new" by auto
      then show ?thesis
      proof cases
        case 1
        then show ?thesis using ins r0 yna by (simp add: r0_def)
      next
        case 2
        with new(2) have "le_employee_id r = e \<and> le_leave_type r = lt_yeoncha \<and>
              year h + (k + 1) < year (expiration_date r) \<and>
              \<not> expiration_exists db1 e lt_yeoncha (expiration_date r) \<and>
              0 < expired_amount r \<and>
              annual_expiration_amount db1 e h (expiration_date r) = Some (expired_amount r)"
          by blast
        then show ?thesis using ex' amt by auto
      qed
    qed
    from eq props dist show ?thesis by blast
  qed
qed


lemma expiration_exists_append:
  "expiration_exists (db\<lparr>leave_expirations := leave_expirations db @ new\<rparr>) e k d \<longleftrightarrow>
     expiration_exists db e k d \<or>
     (\<exists>r \<in> set new. le_employee_id r = e \<and> le_leave_type r = k \<and> expiration_date r = d)"
  by (auto simp: expiration_exists_def)

lemma expiration_exists_insert:
  "expiration_exists (insert_expiration db e' k' x d' y) e k d \<longleftrightarrow>
     expiration_exists db e k d \<or> (e' = e \<and> k' = k \<and> d' = d)"
  by (auto simp: expiration_exists_def insert_expiration_def)

lemma annual_loop_rerun:
  assumes "annual_expiration_loop n k e h t db tot = Some (db', tot')"
  shows "annual_expiration_loop n k e h t db' tot0 = Some (db', tot0)"
  using assms
proof (induction n arbitrary: k db tot)
  case 0
  then show ?case by simp
next
  case (Suc n)
  define X where "X d a na = of_int (calculate_annual_leave h a)
                          - used_leave_records d e lt_yeoncha (Some a) na" for d a na
  from Suc.prems [unfolded annual_expiration_loop.simps Let_def] obtain a na where
    a: "anniversary_in h (year h + k) = Some a" and
    na: "anniversary_in h (year a + 1) = Some na" and
    body: "(if date_le na t then
             if expiration_exists db e lt_yeoncha na
             then annual_expiration_loop n (k + 1) e h t db tot
             else if 0 < X db a na
                     then annual_expiration_loop n (k + 1) e h t
                            (insert_expiration db e lt_yeoncha (X db a na) na (year t))
                            (tot + X db a na)
                     else annual_expiration_loop n (k + 1) e h t db tot
           else Some (db, tot)) = Some (db', tot')"
    unfolding X_def by (auto simp: bind_eq_Some_conv)
  have ya: "year a = year h + k" using anniversary_in_Some [OF a] by simp
  have yna: "year na = year h + k + 1" using anniversary_in_Some [OF na] ya by simp
  have unfold: "annual_expiration_loop (Suc n) k e h t d tot0 =
         (if date_le na t then
             if expiration_exists d e lt_yeoncha na
             then annual_expiration_loop n (k + 1) e h t d tot0
             else if 0 < X d a na
                     then annual_expiration_loop n (k + 1) e h t
                            (insert_expiration d e lt_yeoncha (X d a na) na (year t))
                            (tot0 + X d a na)
                     else annual_expiration_loop n (k + 1) e h t d tot0
           else Some (d, tot0))" for d
    unfolding annual_expiration_loop.simps Let_def X_def by (simp add: a na)
  consider (stop) "\<not> date_le na t"
    | (skip) "date_le na t" "expiration_exists db e lt_yeoncha na"
    | (none) "date_le na t" "\<not> expiration_exists db e lt_yeoncha na" "\<not> 0 < X db a na"
    | (ins) "date_le na t" "\<not> expiration_exists db e lt_yeoncha na" "0 < X db a na"
    by blast
  then show ?case
  proof cases
    case stop
    with body have "db' = db" by simp
    with stop show ?thesis by (simp add: unfold del: annual_expiration_loop.simps)
  next
    case skip
    with body have rec: "annual_expiration_loop n (k + 1) e h t db tot = Some (db', tot')"
      by simp
    from annual_loop_appends [OF rec] obtain new where
      "db' = db\<lparr>leave_expirations := leave_expirations db @ new\<rparr>" by blast
    then have "expiration_exists db' e lt_yeoncha na"
      using skip(2) by (simp add: expiration_exists_append)
    with skip(1) Suc.IH [OF rec] show ?thesis by (simp add: unfold del: annual_expiration_loop.simps)
  next
    case none
    with body have rec: "annual_expiration_loop n (k + 1) e h t db tot = Some (db', tot')"
      by simp
    from annual_loop_appends [OF rec] obtain new where
      new: "db' = db\<lparr>leave_expirations := leave_expirations db @ new\<rparr>"
        "\<forall>r \<in> set new. year h + (k + 1) < year (expiration_date r)" by blast
    have "\<not> expiration_exists db' e lt_yeoncha na"
      using none(2) new(2) yna unfolding new(1) expiration_exists_append by fastforce
    moreover have "X db' a na = X db a na"
      unfolding X_def new(1) by (simp add: used_leave_records_def)
    ultimately show ?thesis
      using none Suc.IH [OF rec] by (simp add: unfold del: annual_expiration_loop.simps)
  next
    case ins
    with body have rec: "annual_expiration_loop n (k + 1) e h t
         (insert_expiration db e lt_yeoncha (X db a na) na (year t)) (tot + X db a na)
         = Some (db', tot')"
      by simp
    from annual_loop_appends [OF rec] obtain new where
      "db' = (insert_expiration db e lt_yeoncha (X db a na) na (year t))
           \<lparr>leave_expirations :=
              leave_expirations (insert_expiration db e lt_yeoncha (X db a na) na (year t)) @ new\<rparr>"
      by blast
    then have "expiration_exists db' e lt_yeoncha na"
      by (simp add: expiration_exists_append expiration_exists_insert)
    with ins(1) Suc.IH [OF rec] show ?thesis by (simp add: unfold del: annual_expiration_loop.simps)
  qed
qed

lemma distinct_keys_append:
  assumes d: "distinct (map expiration_key old)"
    and new: "\<forall>r \<in> set new. le_employee_id r = e \<and> le_leave_type r = k \<and>
                (e, k, expiration_date r) \<notin> expiration_key ` set old"
    and dn: "distinct (map expiration_date new)"
  shows "distinct (map expiration_key (old @ new))"
proof -
  have "map expiration_key new = map (\<lambda>r. (e, k, expiration_date r)) new"
    using new by (simp add: expiration_key_def)
  also have "\<dots> = map (\<lambda>d. (e, k, d)) (map expiration_date new)" by simp
  finally have eq: "map expiration_key new = map (\<lambda>d. (e, k, d)) (map expiration_date new)" .
  have "distinct (map expiration_key new)"
    unfolding eq using dn by (simp add: distinct_map inj_on_def)
  moreover have "set (map expiration_key old) \<inter> set (map expiration_key new) = {}"
  proof (rule ccontr)
    assume "set (map expiration_key old) \<inter> set (map expiration_key new) \<noteq> {}"
    then obtain q where "q \<in> set (map expiration_key old)" "q \<in> set (map expiration_key new)"
      by blast
    then obtain r where r: "r \<in> set new" "expiration_key r \<in> expiration_key ` set old"
      by (metis image_iff list.set_map)
    from new r(1) have "expiration_key r = (e, k, expiration_date r)"
      by (simp add: expiration_key_def)
    with new r show False by auto
  qed
  ultimately show ?thesis using d by simp
qed

lemma annual_loop_distinct:
  assumes "annual_expiration_loop n k e h t db tot = Some (db', tot')"
    and "distinct (map expiration_key (leave_expirations db))"
  shows "distinct (map expiration_key (leave_expirations db'))"
proof -
  from annual_loop_appends [OF assms(1)] obtain new where
    new: "db' = db\<lparr>leave_expirations := leave_expirations db @ new\<rparr>"
      "\<forall>r \<in> set new. le_employee_id r = e \<and> le_leave_type r = lt_yeoncha \<and>
              \<not> expiration_exists db e lt_yeoncha (expiration_date r)"
      "distinct (map expiration_date new)"
    by blast
  have "distinct (map expiration_key (leave_expirations db @ new))"
    using assms(2) new(2) new(3)
    by (intro distinct_keys_append [where e = e and k = lt_yeoncha])
       (auto simp: expiration_exists_iff)
  then show ?thesis by (simp add: new(1))
qed

lemma check_annual_appends:
  assumes "check_annual_leave_expiration db e t = Some (db', x)"
  shows "\<exists>new. db' = db\<lparr>leave_expirations := leave_expirations db @ new\<rparr> \<and>
           (\<forall>r \<in> set new. le_employee_id r = e \<and> le_leave_type r = lt_yeoncha \<and>
              \<not> expiration_exists db e lt_yeoncha (expiration_date r)) \<and>
           distinct (map expiration_date new)"
proof (cases "find (\<lambda>emp. emp_id emp = e) (employees db)")
  case None
  with assms have "db' = db" by (simp add: check_annual_leave_expiration_def)
  then show ?thesis by (intro exI [of _ "[]"]) simp
next
  case (Some emp)
  with assms obtain h where
    h: "mk_date (year (emp_hire_date emp)) (month (emp_hire_date emp)) (day (emp_hire_date emp))
          = Some h" and
    body: "(if \<not> is_one_year_or_more (emp_name emp) h t then Some (db, 0)
            else annual_expiration_loop 49 1 e h t db 0) = Some (db', x)"
    by (auto simp: check_annual_leave_expiration_def bind_eq_Some_conv)
  show ?thesis
  proof (cases "is_one_year_or_more (emp_name emp) h t")
    case False
    with body have "db' = db" by simp
    then show ?thesis by (intro exI [of _ "[]"]) simp
  next
    case True
    with body have "annual_expiration_loop 49 1 e h t db 0 = Some (db', x)" by simp
    from annual_loop_appends [OF this] show ?thesis by blast
  qed
qed

lemma check_annual_rerun:
  assumes "check_annual_leave_expiration db e t = Some (db', x)"
  shows "check_annual_leave_expiration db' e t = Some (db', 0)"
proof -
  from check_annual_appends [OF assms] obtain new where
    "db' = db\<lparr>leave_expirations := leave_expirations db @ new\<rparr>" by blast
  then have emp: "employees db' = employees db" by simp
  show ?thesis
  proof (cases "find (\<lambda>emp. emp_id emp = e) (employees db)")
    case None
    then show ?thesis by (simp add: check_annual_leave_expiration_def emp)
  next
    case (Some emp')
    with assms obtain h where
      h: "mk_date (year (emp_hire_date emp')) (month (emp_hire_date emp'))
            (day (emp_hire_date emp')) = Some h" and
      body: "(if \<not> is_one_year_or_more (emp_name emp') h t then Some (db, 0)
              else annual_expiration_loop 49 1 e h t db 0) = Some (db', x)"
      by (auto simp: check_annual_leave_expiration_def bind_eq_Some_conv)
    show ?thesis
    proof (cases "is_one_year_or_more (emp_name emp') h t")
      case False
      then show ?thesis by (simp add: check_annual_leave_expiration_def emp Some h)
    next
      case True
      with body have "annual_expiration_loop 49 1 e h t db 0 = Some (db', x)" by simp
      from annual_loop_rerun [OF this, of 0] True show ?thesis
        by (simp add: check_annual_leave_expiration_def emp Some h)
    qed
  qed
qed

lemma check_annual_distinct:
  assumes "check_annual_leave_expiration db e t = Some (db', x)"
    and "distinct (map expiration_key (leave_expirations db))"
  shows "distinct (map expiration_key (leave_expirations db'))"
proof -
  from check_annual_appends [OF assms(1)] obtain new where
    new: "db' = db\<lparr>leave_expirations := leave_expirations db @ new\<rparr>"
      "\<forall>r \<in> set new. le_employee_id r = e \<and> le_leave_type r = lt_yeoncha \<and>
              \<not> expiration_exists db e lt_yeoncha (expiration_date r)"
      "distinct (map expiration_date new)"
    by blast
  have "distinct (map expiration_key (leave_expirations db @ new))"
    using assms(2) new(2) new(3)
    by (intro distinct_keys_append [where e = e and k = lt_yeoncha])
       (auto simp: expiration_exists_iff)
  then show ?thesis by (simp add: new(1))
qed

section \<open>Idempotent expiration\<close>

lemma check_monthly_unfold:
  "check_monthly_leave_expiration db e h t =
     (case find (\<lambda>emp. emp_id emp = e) (employees db) of
        None \<Rightarrow> Some (db, 0)
      | Some emp \<Rightarrow>
          if is_one_year_or_more (emp_name emp) h t then Some (db, 0)
          else (case anniversary_in h (year h + 1) of
                  None \<Rightarrow> None
                | Some d \<Rightarrow>
                    if date_le d t then
                      if expiration_exists db e lt_wolcha d then Some (db, 0)
                      else (case minus_one_day d of
                              None \<Rightarrow> None
                            | Some eve \<Rightarrow>
                                if 0 < monthly_expired db e h d eve
                                then Some (insert_expiration db e lt_wolcha
                                             (monthly_expired db e h d eve) d (year t),
                                           monthly_expired db e h d eve)
                                else Some (db, 0))
                    else Some (db, 0)))"
  unfolding check_monthly_leave_expiration_def Let_def monthly_expired_def
  by (simp split: option.splits)


lemma check_monthly_cases:
  assumes "check_monthly_leave_expiration db e h t = Some (db', x)"
  shows "(db' = db \<and> x = 0) \<or>
         (\<exists>d. anniversary_in h (year h + 1) = Some d \<and> date_le d t \<and>
              \<not> expiration_exists db e lt_wolcha d \<and> 0 < x \<and>
              db' = insert_expiration db e lt_wolcha x d (year t))"
proof (cases "find (\<lambda>emp. emp_id emp = e) (employees db)")
  case None
  with assms show ?thesis by (simp add: check_monthly_unfold)
next
  case (Some emp)
  show ?thesis
  proof (cases "is_one_year_or_more (emp_name emp) h t")
    case True
    with assms Some show ?thesis by (simp add: check_monthly_unfold)
  next
    case False
    with assms Some obtain d where d: "anniversary_in h (year h + 1) = Some d"
      by (cases "anniversary_in h (year h + 1)") (simp_all add: check_monthly_unfold)
    note ctx = Some False d
    show ?thesis
    proof (cases "date_le d t")
      case no: False
      with assms ctx show ?thesis by (simp add: check_monthly_unfold)
    next
      case le: True
      show ?thesis
      proof (cases "expiration_exists db e lt_wolcha d")
        case True
        with assms ctx le show ?thesis by (simp add: check_monthly_unfold)
      next
        case nex: False
        with assms ctx le obtain eve where eve: "minus_one_day d = Some eve"
          by (cases "minus_one_day d") (simp_all add: check_monthly_unfold)
        show ?thesis
        proof (cases "0 < monthly_expired db e h d eve")
          case True
          with assms ctx le nex eve have
            "db' = insert_expiration db e lt_wolcha (monthly_expired db e h d eve) d (year t)"
            "x = monthly_expired db e h d eve"
            by (auto simp: check_monthly_unfold)
          with True d le nex show ?thesis by blast
        next
          case False
          with assms ctx le nex eve show ?thesis by (simp add: check_monthly_unfold)
        qed
      qed
    qed
  qed
qed

lemma check_monthly_frame:
  assumes same: "employees db2 = employees db1" "leave_records db2 = leave_records db1"
    and ex: "\<And>d. expiration_exists db2 e lt_wolcha d = expiration_exists db1 e lt_wolcha d"
    and run: "check_monthly_leave_expiration db1 e h t = Some (db1, 0)"
  shows "check_monthly_leave_expiration db2 e h t = Some (db2, 0)"
proof -
  have used: "monthly_expired db2 e h d eve = monthly_expired db1 e h d eve" for d eve
    by (simp add: monthly_expired_def used_leave_records_def same)
  show ?thesis
  proof (cases "find (\<lambda>emp. emp_id emp = e) (employees db1)")
    case None
    then show ?thesis by (simp add: check_monthly_unfold same)
  next
    case (Some emp)
    show ?thesis
    proof (cases "is_one_year_or_more (emp_name emp) h t")
      case True
      with Some show ?thesis by (simp add: check_monthly_unfold same)
    next
      case False
      with run Some obtain d where d: "anniversary_in h (year h + 1) = Some d"
        by (cases "anniversary_in h (year h + 1)") (simp_all add: check_monthly_unfold)
      note ctx = Some False d
      show ?thesis
      proof (cases "date_le d t")
        case no: False
        with ctx show ?thesis by (simp add: check_monthly_unfold same)
      next
        case le: True
        show ?thesis
        proof (cases "expiration_exists db1 e lt_wolcha d")
          case True
          with ctx le show ?thesis by (simp add: check_monthly_unfold same ex)
        next
          case nex: False
          with run ctx le obtain eve where eve: "minus_one_day d = Some eve"
            by (cases "minus_one_day d") (simp_all add: check_monthly_unfold)
          have "\<not> 0 < monthly_expired db1 e h d eve"
          proof
            assume "0 < monthly_expired db1 e h d eve"
            with run ctx le nex eve have "monthly_expired db1 e h d eve = 0"
              by (simp add: check_monthly_unfold)
            with \<open>0 < monthly_expired db1 e h d eve\<close> show False by simp
          qed
          with ctx le nex eve show ?thesis
            by (simp add: check_monthly_unfold same ex used)
        qed
      qed
    qed
  qed
qed

lemma check_monthly_rerun:
  assumes "check_monthly_leave_expiration db e h t = Some (db', x)"
  shows "check_monthly_leave_expiration db' e h t = Some (db', 0)"
proof -
  from check_monthly_cases [OF assms] consider
    (same) "db' = db" "x = 0"
    | (ins) d where "anniversary_in h (year h + 1) = Some d" "date_le d t"
        "\<not> expiration_exists db e lt_wolcha d" "0 < x"
        "db' = insert_expiration db e lt_wolcha x d (year t)"
    by blast
  then show ?thesis
  proof cases
    case same
    with assms show ?thesis by simp
  next
    case ins
    have ex: "expiration_exists db' e lt_wolcha d"
      by (simp add: ins(5) expiration_exists_insert)
    have emp: "employees db' = employees db" by (simp add: ins(5) insert_expiration_def)
    show ?thesis
    proof (cases "find (\<lambda>emp. emp_id emp = e) (employees db)")
      case None
      then show ?thesis by (simp add: check_monthly_unfold emp)
    next
      case (Some emp')
      then show ?thesis
        using ins(1,2) ex by (simp add: check_monthly_unfold emp)
    qed
  qed
qed

lemma check_monthly_distinct:
  assumes "check_monthly_leave_expiration db e h t = Some (db', x)"
    and "distinct (map expiration_key (leave_expirations db))"
  shows "distinct (map expiration_key (leave_expirations db'))"
proof -
  from check_monthly_cases [OF assms(1)] consider
    (same) "db' = db"
    | (ins) d where "\<not> expiration_exists db e lt_wolcha d"
        "db' = insert_expiration db e lt_wolcha x d (year t)"
    by blast
  then show ?thesis
  proof cases
    case same
    with assms(2) show ?thesis by simp
  next
    case ins
    then show ?thesis
      using assms(2)
      by (auto simp: insert_expiration_def expiration_exists_iff expiration_key_def)
  qed
qed

lemma labels_distinct: "lt_wolcha \<noteq> lt_yeoncha"
  by (simp add: lt_wolcha_def lt_yeoncha_def)

text \<open>
  C4.  \<^verbatim>\<open>refresh_data\<close> runs the monthly check and then the annual check for an employee
  and a date.  Running both again on the database they leave changes nothing: no record
  is added and each call returns 0.  If no two expiration records shared their employee,
  leave kind and expiration date before, none do afterwards.
\<close>

theorem expiration_rerun_is_noop:
  assumes "check_monthly_leave_expiration db e h t = Some (db1, x1)"
    and "check_annual_leave_expiration db1 e t = Some (db2, x2)"
  shows "check_monthly_leave_expiration db2 e h t = Some (db2, 0) \<and>
         check_annual_leave_expiration db2 e t = Some (db2, 0) \<and>
         (distinct (map expiration_key (leave_expirations db)) \<longrightarrow>
          distinct (map expiration_key (leave_expirations db2)))"
proof (intro conjI impI)
  from check_annual_appends [OF assms(2)] obtain new where
    new: "db2 = db1\<lparr>leave_expirations := leave_expirations db1 @ new\<rparr>"
      "\<forall>r \<in> set new. le_leave_type r = lt_yeoncha"
    by blast
  have ex: "expiration_exists db2 e lt_wolcha d = expiration_exists db1 e lt_wolcha d" for d
  proof -
    have "\<not> (\<exists>r \<in> set new. le_employee_id r = e \<and> le_leave_type r = lt_wolcha \<and>
                expiration_date r = d)"
      using new(2) labels_distinct by metis
    then show ?thesis unfolding new(1) expiration_exists_append by blast
  qed
  have emp: "employees db2 = employees db1" and lr: "leave_records db2 = leave_records db1"
    by (simp_all add: new(1))
  from check_monthly_rerun [OF assms(1)]
  show "check_monthly_leave_expiration db2 e h t = Some (db2, 0)"
    by (rule check_monthly_frame [OF emp lr ex])
  show "check_annual_leave_expiration db2 e t = Some (db2, 0)"
    by (rule check_annual_rerun [OF assms(2)])
  assume "distinct (map expiration_key (leave_expirations db))"
  then have "distinct (map expiration_key (leave_expirations db1))"
    by (rule check_monthly_distinct [OF assms(1)])
  then show "distinct (map expiration_key (leave_expirations db2))"
    by (rule check_annual_distinct [OF assms(2)])
qed

theorem expiration_rerun_is_noop_witness:
  "check_monthly_leave_expiration db_hired_2020 1 (ymd 2020 1 1) (ymd 2023 6 1)
     = Some (db_hired_2020, 0) \<and>
   check_annual_leave_expiration db_hired_2020 1 (ymd 2023 6 1)
     = Some (db_hired_2020_checked, 30) \<and>
   distinct (map expiration_key (leave_expirations db_hired_2020)) \<and>
   check_monthly_leave_expiration db_hired_2020_checked 1 (ymd 2020 1 1) (ymd 2023 6 1)
     = Some (db_hired_2020_checked, 0) \<and>
   check_annual_leave_expiration db_hired_2020_checked 1 (ymd 2023 6 1)
     = Some (db_hired_2020_checked, 0) \<and>
   distinct (map expiration_key (leave_expirations db_hired_2020_checked))"
proof -
  have m: "check_monthly_leave_expiration db_hired_2020 1 (ymd 2020 1 1) (ymd 2023 6 1)
             = Some (db_hired_2020, 0)"
    by code_simp
  have a: "check_annual_leave_expiration db_hired_2020 1 (ymd 2023 6 1)
             = Some (db_hired_2020_checked, 30)"
    by code_simp
  have d: "distinct (map expiration_key (leave_expirations db_hired_2020))"
    by (simp add: db_hired_2020_def)
  from expiration_rerun_is_noop [OF m a] m a d show ?thesis by blast
qed

section \<open>Amounts recorded by the expiration walks\<close>

lemma walk_amount_frame:
  "leave_records db' = leave_records db \<Longrightarrow>
   walk_expiration_amount db' e h d = walk_expiration_amount db e h d"
proof -
  assume "leave_records db' = leave_records db"
  then have u: "used_leave_records db' = used_leave_records db"
    by (intro ext) (simp add: used_leave_records_def)
  show ?thesis unfolding walk_expiration_amount_def u by (rule refl)
qed

lemma expiration_walk_appends:
  assumes "expiration_walk n k e h cur db = Some db'"
  shows "\<exists>new. db' = db\<lparr>leave_expirations := leave_expirations db @ new\<rparr> \<and>
           (\<forall>r \<in> set new.
              le_employee_id r = e \<and> le_leave_type r = lt_yeoncha \<and>
              year h + k \<le> year (expiration_date r) \<and>
              0 < expired_amount r \<and>
              walk_expiration_amount db e h (expiration_date r) = Some (expired_amount r))"
  using assms
proof (induction n arbitrary: k db)
  case 0
  then have "db' = db" by simp
  then show ?case by (intro exI [of _ "[]"]) simp
next
  case (Suc n)
  define P where "P = (if k = 1 then Some h else mk_date (year h + k - 1) (month h) (day h))"
  define X where "X ps g na = max 0 (of_int g - used_leave_records db e lt_yeoncha (Some ps) na)"
    for ps :: date and g :: int and na :: date
  from Suc.prems [unfolded expiration_walk.simps Let_def] obtain na where
    na: "anniversary_in h (year h + k) = Some na" and
    body: "(if date_lt cur na then Some db
            else if date_le na cur then
              if expiration_exists db e lt_yeoncha na
              then expiration_walk n (k + 1) e h cur db
              else P \<bind> (\<lambda>period_start.
                     leave_generated_period h k period_start na \<bind> (\<lambda>generated.
                       if 0 < X period_start generated na
                       then expiration_walk n (k + 1) e h cur
                              (insert_expiration db e lt_yeoncha
                                 (X period_start generated na) na (year cur))
                       else expiration_walk n (k + 1) e h cur db))
            else expiration_walk n (k + 1) e h cur db) = Some db'"
    unfolding P_def X_def by (auto simp: bind_eq_Some_conv)
  have yna: "year na = year h + k" using anniversary_in_Some [OF na] by simp
  have weaken: ?case if rec: "expiration_walk n (k + 1) e h cur db = Some db'"
  proof -
    from Suc.IH [OF rec] obtain new where
      new: "db' = db\<lparr>leave_expirations := leave_expirations db @ new\<rparr>"
        "\<forall>r \<in> set new.
              le_employee_id r = e \<and> le_leave_type r = lt_yeoncha \<and>
              year h + (k + 1) \<le> year (expiration_date r) \<and>
              0 < expired_amount r \<and>
              walk_expiration_amount db e h (expiration_date r) = Some (expired_amount r)"
      by blast
    show ?thesis by (rule exI [of _ new]) (use new in force)
  qed
  show ?case
  proof (cases "date_lt cur na")
    case True
    with body have "db' = db" by simp
    then show ?thesis by (intro exI [of _ "[]"]) simp
  next
    case nlt: False
    show ?thesis
    proof (cases "date_le na cur")
      case False
      with nlt body show ?thesis by (intro weaken) simp
    next
      case le: True
      show ?thesis
      proof (cases "expiration_exists db e lt_yeoncha na")
        case True
        with nlt le body show ?thesis by (intro weaken) simp
      next
        case nex: False
        with nlt le body obtain ps g where
          ps: "P = Some ps" and g: "leave_generated_period h k ps na = Some g" and
          body': "(if 0 < X ps g na
                   then expiration_walk n (k + 1) e h cur
                          (insert_expiration db e lt_yeoncha (X ps g na) na (year cur))
                   else expiration_walk n (k + 1) e h cur db) = Some db'"
          by (auto simp: bind_eq_Some_conv)
        define x where "x = X ps g na"
        have amt: "walk_expiration_amount db e h na = Some x"
          using ps g unfolding walk_expiration_amount_def P_def x_def X_def yna Let_def
          by (simp add: algebra_simps)
        show ?thesis
        proof (cases "0 < x")
          case False
          with body' show ?thesis by (intro weaken) (simp add: x_def)
        next
          case pos: True
          define db1 where "db1 = insert_expiration db e lt_yeoncha x na (year cur)"
          define r0 where "r0 = \<lparr>le_employee_id = e, le_leave_type = lt_yeoncha,
             expired_amount = x, expiration_date = na, le_year = year cur\<rparr>"
          from pos body' have rec: "expiration_walk n (k + 1) e h cur db1 = Some db'"
            by (simp add: x_def db1_def)
          from Suc.IH [OF rec] obtain new where
            new: "db' = db1\<lparr>leave_expirations := leave_expirations db1 @ new\<rparr>"
              "\<forall>r \<in> set new.
                    le_employee_id r = e \<and> le_leave_type r = lt_yeoncha \<and>
                    year h + (k + 1) \<le> year (expiration_date r) \<and>
                    0 < expired_amount r \<and>
                    walk_expiration_amount db1 e h (expiration_date r) = Some (expired_amount r)"
            by blast
          have lr: "leave_records db1 = leave_records db"
            by (simp add: db1_def insert_expiration_def)
          have eq: "db' = db\<lparr>leave_expirations := leave_expirations db @ (r0 # new)\<rparr>"
            by (simp add: new(1) db1_def r0_def insert_expiration_def)
          have props: "le_employee_id r = e \<and> le_leave_type r = lt_yeoncha \<and>
                    year h + k \<le> year (expiration_date r) \<and>
                    0 < expired_amount r \<and>
                    walk_expiration_amount db e h (expiration_date r) = Some (expired_amount r)"
            if "r \<in> set (r0 # new)" for r
          proof -
            from that consider "r = r0" | "r \<in> set new" by auto
            then show ?thesis
            proof cases
              case 1
              then show ?thesis using pos amt yna by (simp add: r0_def)
            next
              case 2
              with new(2) have "le_employee_id r = e \<and> le_leave_type r = lt_yeoncha \<and>
                    year h + (k + 1) \<le> year (expiration_date r) \<and>
                    0 < expired_amount r \<and>
                    walk_expiration_amount db1 e h (expiration_date r) = Some (expired_amount r)"
                by blast
              then show ?thesis using walk_amount_frame [OF lr] by auto
            qed
          qed
          from eq props show ?thesis by blast
        qed
      qed
    qed
  qed
qed

lemma date_eta: "\<lparr>year = year d, month = month d, day = day d\<rparr> = (d :: date)"
  by simp

lemma check_annual_amounts:
  assumes emp: "find (\<lambda>emp. emp_id emp = e) (employees db) = Some emp"
    and run: "check_annual_leave_expiration db e t = Some (db', x)"
  shows "\<exists>new. leave_expirations db' = leave_expirations db @ new \<and>
           (\<forall>r \<in> set new.
              0 < expired_amount r \<and>
              annual_expiration_amount db e (emp_hire_date emp) (expiration_date r)
                = Some (expired_amount r))"
proof -
  from run emp obtain h where
    h: "mk_date (year (emp_hire_date emp)) (month (emp_hire_date emp)) (day (emp_hire_date emp))
          = Some h" and
    body: "(if \<not> is_one_year_or_more (emp_name emp) h t then Some (db, 0)
            else annual_expiration_loop 49 1 e h t db 0) = Some (db', x)"
    by (auto simp: check_annual_leave_expiration_def bind_eq_Some_conv)
  from h have hh: "h = emp_hire_date emp" by (simp add: mk_date_Some)
  show ?thesis
  proof (cases "is_one_year_or_more (emp_name emp) h t")
    case False
    with body have "db' = db" by simp
    then show ?thesis by (intro exI [of _ "[]"]) simp
  next
    case True
    with body have "annual_expiration_loop 49 1 e h t db 0 = Some (db', x)" by simp
    from annual_loop_appends [OF this] obtain new where
      new: "db' = db\<lparr>leave_expirations := leave_expirations db @ new\<rparr>"
        "\<forall>r \<in> set new. 0 < expired_amount r \<and>
           annual_expiration_amount db e h (expiration_date r) = Some (expired_amount r)"
      by blast
    show ?thesis
      by (rule exI [of _ new]) (use new hh in simp)
  qed
qed

text \<open>
  What the two walks record.  Every record that the expiration walk of \<^verbatim>\<open>refresh_data\<close>
  adds for a boundary holds max(0, generated - used), where generated is the entitlement
  on the eve of the boundary for the first period and, for a later period, that
  entitlement minus the entitlement on the eve of the period's start, and used is the leave
  taken in the period.  Every record that \<^verbatim>\<open>check_annual_leave_expiration\<close> adds holds the
  entitlement at the start of the period minus the leave taken in the period: there the
  generated leave is the absolute entitlement for every period.
\<close>

lemma recorded_expiration_amounts:
  "(expiration_walk 50 1 e h current_date db = Some db1 \<longrightarrow>
      (\<exists>new. leave_expirations db1 = leave_expirations db @ new \<and>
         (\<forall>r \<in> set new.
            0 < expired_amount r \<and>
            walk_expiration_amount db e h (expiration_date r) = Some (expired_amount r)))) \<and>
   (find (\<lambda>emp. emp_id emp = e) (employees db) = Some emp \<and>
    check_annual_leave_expiration db e target_date = Some (db2, x) \<longrightarrow>
      (\<exists>new. leave_expirations db2 = leave_expirations db @ new \<and>
         (\<forall>r \<in> set new.
            0 < expired_amount r \<and>
            annual_expiration_amount db e (emp_hire_date emp) (expiration_date r)
              = Some (expired_amount r))))"
proof (intro conjI impI)
  assume "expiration_walk 50 1 e h current_date db = Some db1"
  from expiration_walk_appends [OF this] obtain new where
    new: "db1 = db\<lparr>leave_expirations := leave_expirations db @ new\<rparr>"
      "\<forall>r \<in> set new. 0 < expired_amount r \<and>
          walk_expiration_amount db e h (expiration_date r) = Some (expired_amount r)"
    by blast
  show "\<exists>new. leave_expirations db1 = leave_expirations db @ new \<and>
         (\<forall>r \<in> set new.
            0 < expired_amount r \<and>
            walk_expiration_amount db e h (expiration_date r) = Some (expired_amount r))"
    by (rule exI [of _ new]) (use new in simp)
next
  assume "find (\<lambda>emp. emp_id emp = e) (employees db) = Some emp \<and>
    check_annual_leave_expiration db e target_date = Some (db2, x)"
  then show "\<exists>new. leave_expirations db2 = leave_expirations db @ new \<and>
         (\<forall>r \<in> set new.
            0 < expired_amount r \<and>
            annual_expiration_amount db e (emp_hire_date emp) (expiration_date r)
              = Some (expired_amount r))"
    using check_annual_amounts by blast
qed

lemma recorded_expiration_amounts_example:
  "expiration_walk 50 1 1 (ymd 2020 1 1) (ymd 2022 6 1) db_hired_2020
     = Some db_hired_2020_walked \<and>
   walk_expiration_amount db_hired_2020 1 (ymd 2020 1 1) (ymd 2022 1 1) = Some 15 \<and>
   find (\<lambda>emp. emp_id emp = 1) (employees db_hired_2020) = Some hired_2020 \<and>
   check_annual_leave_expiration db_hired_2020 1 (ymd 2023 6 1)
     = Some (db_hired_2020_checked, 30) \<and>
   annual_expiration_amount db_hired_2020 1 (emp_hire_date hired_2020) (ymd 2023 1 1) = Some 15"
proof -
  have w: "expiration_walk 50 1 1 (ymd 2020 1 1) (ymd 2022 6 1) db_hired_2020
             = Some db_hired_2020_walked"
    by code_simp
  have f: "find (\<lambda>emp. emp_id emp = 1) (employees db_hired_2020) = Some hired_2020"
    by (simp add: db_hired_2020_def hired_2020_def)
  have c: "check_annual_leave_expiration db_hired_2020 1 (ymd 2023 6 1)
             = Some (db_hired_2020_checked, 30)"
    by code_simp
  from recorded_expiration_amounts
         [of 1 "ymd 2020 1 1" "ymd 2022 6 1" db_hired_2020 db_hired_2020_walked hired_2020
             "ymd 2023 6 1" db_hired_2020_checked 30]
       w f c
  obtain new1 new2 where
    n1: "leave_expirations db_hired_2020_walked = leave_expirations db_hired_2020 @ new1"
      "\<forall>r \<in> set new1.
          walk_expiration_amount db_hired_2020 1 (ymd 2020 1 1) (expiration_date r)
            = Some (expired_amount r)" and
    n2: "leave_expirations db_hired_2020_checked = leave_expirations db_hired_2020 @ new2"
      "\<forall>r \<in> set new2.
          annual_expiration_amount db_hired_2020 1 (emp_hire_date hired_2020) (expiration_date r)
            = Some (expired_amount r)"
    by blast
  have l0: "leave_expirations db_hired_2020 = []"
    by (simp add: db_hired_2020_def)
  have "new1 = leave_expirations db_hired_2020_walked" using n1(1) l0 by simp
  then have "\<lparr>le_employee_id = 1, le_leave_type = lt_yeoncha, expired_amount = 15,
         expiration_date = ymd 2022 1 1, le_year = 2022\<rparr> \<in> set new1"
    by (simp add: db_hired_2020_walked_def)
  with n1(2) have
    "walk_expiration_amount db_hired_2020 1 (ymd 2020 1 1) (ymd 2022 1 1) = Some 15"
    by fastforce
  moreover have "new2 = leave_expirations db_hired_2020_checked" using n2(1) l0 by simp
  then have "\<lparr>le_employee_id = 1, le_leave_type = lt_yeoncha, expired_amount = 15,
         expiration_date = ymd 2023 1 1, le_year = 2023\<rparr> \<in> set new2"
    by (simp add: db_hired_2020_checked_def)
  with n2(2) have
    "annual_expiration_amount db_hired_2020 1 (emp_hire_date hired_2020) (ymd 2023 1 1) = Some 15"
    by fastforce
  ultimately show ?thesis using w f c by blast
qed

text \<open>
  C3.  For a period after the first the recorded expired amount should be max(0, generated
  - used) with the generated leave taken as a delta of entitlements.
  \<^verbatim>\<open>check_annual_leave_expiration\<close> takes the absolute entitlement at the start of the
  period instead.  For an employee hired on 2020-01-01 who took no leave, the check of
  2023-11-01 records 15 for the period from 2022-01-01 to 2023-01-01; the delta of the
  entitlements at the two boundaries is 1, and the delta that the walk of \<^verbatim>\<open>refresh_data\<close>
  computes for the same boundary is 0, so that the walk on its own records nothing
  there.  In the ledger the check runs first and the walk skips the boundaries that have a
  record: the records of the check are the ones that stay.
\<close>

theorem annual_check_records_absolute_entitlement:
  "check_annual_leave_expiration db_hired_2020 1 (ymd 2023 11 1)
     = Some (db_hired_2020_checked, 30) \<and>
   annual_expiration_amount db_hired_2020 1 (ymd 2020 1 1) (ymd 2023 1 1) = Some 15 \<and>
   calculate_annual_leave (ymd 2020 1 1) (ymd 2023 1 1)
     - calculate_annual_leave (ymd 2020 1 1) (ymd 2022 1 1) = 1 \<and>
   used_leave_records db_hired_2020 1 lt_yeoncha (Some (ymd 2022 1 1)) (ymd 2023 1 1) = 0 \<and>
   walk_expiration_amount db_hired_2020 1 (ymd 2020 1 1) (ymd 2023 1 1) = Some 0 \<and>
   map_option (map expiration_date \<circ> leave_expirations)
     (expiration_walk 50 1 1 (ymd 2020 1 1) (ymd 2023 11 1) db_hired_2020)
     = Some [ymd 2022 1 1] \<and>
   map_option (leave_expirations \<circ> fst)
     (refresh_row db_hired_2020 (ymd 2023 11 1) (ymd 2023 11 1) 2023 hired_2020)
     = Some (leave_expirations db_hired_2020_checked)"
  by code_simp

section \<open>The remaining balance\<close>

lemma not_date_le: "\<not> date_le a b \<longleftrightarrow> date_lt b a"
  by (cases a; cases b) (auto simp: date_le_def date_lt_def)

lemma carry_after_expiration_rule:
  assumes "carry_after_expiration db today sel e h carry = Some (db', final, expired)"
    and "anniversary_in h sel = Some a"
  shows "final = (if 2026 \<le> sel \<and> date_lt today a then carry
                  else max 0 (carry - expired))"
proof (cases "2026 \<le> sel")
  case False
  with assms(1) show ?thesis
    by (auto simp: carry_after_expiration_def Let_def)
next
  case True
  show ?thesis
  proof (cases "date_le a today")
    case le: True
    then have "\<not> date_lt today a" using not_date_le [of a today] by simp
    moreover from assms True le obtain b where
      "anniversary_in h (sel - 1) = Some b"
      "final = max 0 (carry - expired)"
      unfolding carry_after_expiration_def Let_def
      by (auto simp: bind_eq_Some_conv)
    ultimately show ?thesis by simp
  next
    case False
    then have "date_lt today a" using not_date_le [of a today] by simp
    moreover from assms True False have "final = carry"
      unfolding carry_after_expiration_def Let_def by simp
    ultimately show ?thesis using True by simp
  qed
qed

lemma refresh_row_inversion:
  assumes "refresh_row db today cur sel emp = Some (db', row)"
  shows "\<exists>h a db3 db4.
           mk_date (year (emp_hire_date emp)) (month (emp_hire_date emp))
             (day (emp_hire_date emp)) = Some h \<and>
           anniversary_in h sel = Some a \<and>
           carry_after_expiration db3 today sel (emp_id emp) h (row_remaining_prev_year row)
             = Some (db4, row_remaining_prev_year_final row, row_total_expired row) \<and>
           row_remaining row =
             (of_int (row_leave_generated row) - row_used_current_year row)
             + row_remaining_prev_year_final row"
  using assms unfolding refresh_row_def Let_def case_prod_beta
  by (auto simp: bind_eq_Some_conv) blast

text \<open>
  The remaining balance of every row is (entitlement of the year - usage of the year)
  plus the carry-in after expiration, and the sum is not clamped: it is negative exactly
  when the usage exceeds the entitlement plus the carry-in after expiration.  The
  carry-in after expiration is the carry-in minus the expired amount, clamped at zero,
  except from 2026 on before the anniversary of the selected year, where the carry-in
  passes as it is.
\<close>

lemma remaining_balance_formula:
  assumes "refresh_row db today current_date selected_year emp = Some (db', row)"
  shows "row_remaining row =
           (of_int (row_leave_generated row) - row_used_current_year row)
           + row_remaining_prev_year_final row \<and>
         (\<exists>a. anniversary_in (emp_hire_date emp) selected_year = Some a \<and>
              row_remaining_prev_year_final row =
                (if 2026 \<le> selected_year \<and> date_lt today a then row_remaining_prev_year row
                 else max 0 (row_remaining_prev_year row - row_total_expired row))) \<and>
         (row_remaining row < 0 \<longleftrightarrow>
            of_int (row_leave_generated row) + row_remaining_prev_year_final row
              < row_used_current_year row)"
proof -
  from refresh_row_inversion [OF assms] obtain h a db3 db4 where
    h: "mk_date (year (emp_hire_date emp)) (month (emp_hire_date emp))
          (day (emp_hire_date emp)) = Some h" and
    a: "anniversary_in h selected_year = Some a" and
    c: "carry_after_expiration db3 today selected_year (emp_id emp) h
          (row_remaining_prev_year row)
        = Some (db4, row_remaining_prev_year_final row, row_total_expired row)" and
    r: "row_remaining row =
          (of_int (row_leave_generated row) - row_used_current_year row)
          + row_remaining_prev_year_final row"
    by blast
  from h have hh: "h = emp_hire_date emp" by (simp add: mk_date_Some)
  have f: "row_remaining_prev_year_final row =
             (if 2026 \<le> selected_year \<and> date_lt today a then row_remaining_prev_year row
              else max 0 (row_remaining_prev_year row - row_total_expired row))"
    by (rule carry_after_expiration_rule [OF c a])
  have n: "row_remaining row < 0 \<longleftrightarrow>
            of_int (row_leave_generated row) + row_remaining_prev_year_final row
              < row_used_current_year row"
    unfolding r by linarith
  from r a f n show ?thesis unfolding hh by blast
qed

lemma remaining_balance_formula_example:
  "refresh_row db_overuse (ymd 2025 3 20) (ymd 2025 11 1) 2025 hired_2025
     = Some (db_overuse, row_overuse) \<and>
   row_remaining row_overuse =
     (of_int (row_leave_generated row_overuse) - row_used_current_year row_overuse)
     + row_remaining_prev_year_final row_overuse \<and>
   row_remaining row_overuse = - 1 \<and> row_remaining row_overuse < 0"
proof -
  have w: "refresh_row db_overuse (ymd 2025 3 20) (ymd 2025 11 1) 2025 hired_2025
             = Some (db_overuse, row_overuse)"
    by code_simp
  from remaining_balance_formula [OF w] have
    f: "row_remaining row_overuse =
          (of_int (row_leave_generated row_overuse) - row_used_current_year row_overuse)
          + row_remaining_prev_year_final row_overuse"
    by blast
  have v: "row_remaining row_overuse = - 1" by (simp add: row_overuse_def)
  from w f v show ?thesis by simp
qed

text \<open>
  C1.  The remaining balance should be (entitlement - usage) plus the carry-in after
  expiration, with the carried amount clamped at zero and the sum left unclamped.  The
  sum is as claimed, but the carried amount is not always clamped.  An employee hired on
  2024-06-01 uses 22 days in July 2025 against an entitlement of 15 and a carry-in of 6:
  the ledger of 2025 shows and stores a remaining balance of -1.  The ledger of 2026,
  shown on 2026-01-05 before the anniversary, takes the stored -1 as the carry-in and
  passes it on unclamped: the carry-in after expiration is -1 and the remaining balance
  -1.  Shown again on the anniversary 2026-06-01, the same ledger takes the branch that
  deducts the expiration and clamps: from the same carry-in of -1 the carry-in after
  expiration is 0.
\<close>

theorem negative_carry_in_is_not_clamped:
  "refresh_row db_overdrawn (ymd 2025 12 20) (ymd 2025 11 1) 2025 hired_2024
     = Some (db_overdrawn_2025, row_overdrawn_2025) \<and>
   stored_remaining db_overdrawn_2025 3 2025 = Some (- 1) \<and>
   refresh_row db_overdrawn_2025 (ymd 2026 1 5) (ymd 2026 11 1) 2026 hired_2024
     = Some (db_overdrawn_2026, row_overdrawn_2026) \<and>
   row_remaining_prev_year row_overdrawn_2026 = - 1 \<and>
   row_total_expired row_overdrawn_2026 = 0 \<and>
   row_remaining_prev_year_final row_overdrawn_2026 = - 1 \<and>
   row_remaining row_overdrawn_2026 = - 1 \<and>
   map_option (row_remaining_prev_year \<circ> snd)
     (refresh_row db_overdrawn_2026 (ymd 2026 6 1) (ymd 2026 11 1) 2026 hired_2024)
     = Some (- 1) \<and>
   map_option (row_remaining_prev_year_final \<circ> snd)
     (refresh_row db_overdrawn_2026 (ymd 2026 6 1) (ymd 2026 11 1) 2026 hired_2024)
     = Some 0"
  by code_simp

section \<open>Stored snapshot and recomputed carry-in\<close>










section \<open>Ordinals of dates\<close>

lemma div_succ_int:
  fixes p k :: int
  assumes "1 < k"
  shows "(p + 1) div k = p div k + (if (p + 1) mod k = 0 then 1 else 0)"
proof -
  define r where "r = p mod k"
  have r: "0 \<le> r" "r < k" using assms by (simp_all add: r_def)
  have a: "(p + 1) div k = p div k + (r + 1) div k"
    using div_add1_eq [of p 1 k] assms by (simp add: r_def)
  have b: "(p + 1) mod k = (r + 1) mod k"
    by (simp add: r_def mod_add_left_eq)
  show ?thesis
  proof (cases "r + 1 = k")
    case True
    then show ?thesis using a b assms by simp
  next
    case False
    with r have "r + 1 < k" by simp
    with r have "(r + 1) div k = 0" "(r + 1) mod k = r + 1"
      by simp_all
    with r show ?thesis using a b by simp
  qed
qed

lemma mod_400_100: "y mod 400 = 0 \<Longrightarrow> y mod 100 = 0" for y :: int
proof -
  assume "y mod 400 = 0"
  moreover have "y mod 400 mod 100 = y mod 100" by (rule mod_mod_cancel) simp
  ultimately show ?thesis by simp
qed

lemma mod_100_4: "y mod 100 = 0 \<Longrightarrow> y mod 4 = 0" for y :: int
proof -
  assume "y mod 100 = 0"
  moreover have "y mod 100 mod 4 = y mod 4" by (rule mod_mod_cancel) simp
  ultimately show ?thesis by simp
qed

lemma leap_indicator:
  "(if is_leap y then 1 else 0) =
     (if y mod 4 = 0 then 1 else 0) - (if y mod 100 = 0 then 1 else 0)
     + (if y mod 400 = 0 then (1::int) else 0)"
proof (cases "y mod 400 = 0")
  case True
  then have "y mod 100 = 0" by (rule mod_400_100)
  then have "y mod 4 = 0" by (rule mod_100_4)
  with True \<open>y mod 100 = 0\<close> show ?thesis by (simp only: is_leap_def simp_thms if_True)
next
  case c: False
  show ?thesis
  proof (cases "y mod 100 = 0")
    case True
    then have "y mod 4 = 0" by (rule mod_100_4)
    with True c show ?thesis by (simp only: is_leap_def simp_thms if_True if_False)
  next
    case b: False
    show ?thesis
    proof (cases "y mod 4 = 0")
      case True
      with b c show ?thesis by (simp only: is_leap_def simp_thms if_True if_False)
    next
      case False
      with b c show ?thesis by (simp only: is_leap_def simp_thms if_True if_False)
    qed
  qed
qed

lemma days_before_year_Suc:
  "days_before_year (y + 1) = days_before_year y + 365 + (if is_leap y then 1 else 0)"
proof -
  define a b c :: int where "a = (if y mod 4 = 0 then 1 else 0)"
    and "b = (if y mod 100 = 0 then 1 else 0)" and "c = (if y mod 400 = 0 then 1 else 0)"
  define q4 q100 q400 where "q4 = (y - 1) div 4" and "q100 = (y - 1) div 100"
    and "q400 = (y - 1) div 400"
  have d4: "y div 4 = q4 + a"
    unfolding q4_def a_def using div_succ_int [of 4 "y - 1"] by simp
  have d100: "y div 100 = q100 + b"
    unfolding q100_def b_def using div_succ_int [of 100 "y - 1"] by simp
  have d400: "y div 400 = q400 + c"
    unfolding q400_def c_def using div_succ_int [of 400 "y - 1"] by simp
  have l: "(if is_leap y then 1 else 0) = a - b + c"
    unfolding a_def b_def c_def by (rule leap_indicator)
  have n: "days_before_year (y + 1) = y * 365 + (q4 + a) - (q100 + b) + (q400 + c)"
    unfolding d4 [symmetric] d100 [symmetric] d400 [symmetric]
    by (simp add: days_before_year_def Let_def)
  have o: "days_before_year y = (y - 1) * 365 + q4 - q100 + q400"
    unfolding q4_def q100_def q400_def by (simp add: days_before_year_def Let_def)
  show ?thesis unfolding l n o by (simp add: algebra_simps)
qed

lemma days_before_year_mono:
  "days_before_year y + 365 * int n \<le> days_before_year (y + int n)"
proof (induction n)
  case 0
  show ?case by simp
next
  case (Suc n)
  have "y + int (Suc n) = (y + int n) + 1" by simp
  then have "days_before_year (y + int (Suc n)) = days_before_year ((y + int n) + 1)"
    by (rule arg_cong)
  also have "\<dots> = days_before_year (y + int n) + 365 + (if is_leap (y + int n) then 1 else 0)"
    by (rule days_before_year_Suc)
  finally show ?case using Suc.IH by (simp split: if_splits)
qed

lemma month_cases:
  fixes m :: int
  assumes "1 \<le> m" "m \<le> 12"
  shows "m = 1 \<or> m = 2 \<or> m = 3 \<or> m = 4 \<or> m = 5 \<or> m = 6 \<or> m = 7 \<or> m = 8 \<or> m = 9 \<or>
         m = 10 \<or> m = 11 \<or> m = 12"
  using assms by arith

lemma day_of_year_bounds:
  assumes "valid_date d"
  shows "1 \<le> day_of_year d" "day_of_year d \<le> 365 + (if is_leap (year d) then 1 else 0)"
proof -
  from assms have m: "1 \<le> month d" "month d \<le> 12" by (simp_all add: valid_date_def)
  from month_cases [OF m] assms show "1 \<le> day_of_year d"
    by (elim disjE) (simp_all add: day_of_year_def valid_date_def days_before_month_def)
  from month_cases [OF m] assms
  show "day_of_year d \<le> 365 + (if is_leap (year d) then 1 else 0)"
    by (elim disjE)
       (simp_all add: day_of_year_def valid_date_def days_before_month_def days_in_month_def
          split: if_splits)
qed

lemma day_of_year_next:
  assumes h: "valid_date h" and a: "valid_date a"
    and ge: "\<not> (month a < month h \<or> (month a = month h \<and> day a < day h))"
  shows "day_of_year h \<le> day_of_year a + (if is_leap (year h) then 1 else 0)"
proof -
  from h have mh: "1 \<le> month h" "month h \<le> 12" by (simp_all add: valid_date_def)
  from a have ma: "1 \<le> month a" "month a \<le> 12" by (simp_all add: valid_date_def)
  define Lh where "Lh = is_leap (year h)"
  define La where "La = is_leap (year a)"
  from h have dh: "1 \<le> day h" "day h \<le> days_in_month (year h) (month h)"
    by (simp_all add: valid_date_def)
  from a have da: "1 \<le> day a" by (simp add: valid_date_def)
  show ?thesis
    using month_cases [OF mh] month_cases [OF ma] ge dh da
    unfolding day_of_year_def days_before_month_def days_in_month_def
      Lh_def [symmetric] La_def [symmetric]
    by (elim disjE) (simp_all split: if_splits)
qed

lemma day_of_year_mono:
  assumes a: "valid_date a" and b: "valid_date b" and y: "year a = year b"
    and le: "month a < month b \<or> (month a = month b \<and> day a \<le> day b)"
  shows "day_of_year a \<le> day_of_year b"
proof -
  from a have ma: "1 \<le> month a" "month a \<le> 12" by (simp_all add: valid_date_def)
  from b have mb: "1 \<le> month b" "month b \<le> 12" by (simp_all add: valid_date_def)
  define L where "L = is_leap (year b)"
  from a have da: "1 \<le> day a" "day a \<le> days_in_month (year b) (month a)"
    by (simp_all add: valid_date_def y)
  from b have db: "1 \<le> day b" by (simp add: valid_date_def)
  show ?thesis
    using month_cases [OF ma] month_cases [OF mb] le da db
    unfolding day_of_year_def days_before_month_def days_in_month_def y L_def [symmetric]
    by (elim disjE) (simp_all split: if_splits)
qed

lemma toordinal_eq: "toordinal d = days_before_year (year d) + day_of_year d"
  by (simp add: toordinal_def day_of_year_def)

lemma days_before_year_le:
  assumes "y1 \<le> y2"
  shows "days_before_year y1 + 365 * (y2 - y1) \<le> days_before_year y2"
  using days_before_year_mono [of y1 "nat (y2 - y1)"] assms by simp

lemma toordinal_mono:
  assumes a: "valid_date a" and b: "valid_date b" and le: "date_le a b"
  shows "toordinal a \<le> toordinal b"
proof -
  from le consider (lt) "year a < year b"
    | (same) "year a = year b" "month a < month b \<or> (month a = month b \<and> day a \<le> day b)"
    by (auto simp: date_le_def date_lt_def)
  then show ?thesis
  proof cases
    case lt
    have "toordinal a \<le> days_before_year (year a) + 365 + (if is_leap (year a) then 1 else 0)"
      using day_of_year_bounds(2) [OF a] by (simp add: toordinal_eq)
    also have "\<dots> = days_before_year (year a + 1)" by (simp add: days_before_year_Suc)
    also have "\<dots> \<le> days_before_year (year b)"
      using days_before_year_le [of "year a + 1" "year b"] lt by simp
    also have "\<dots> \<le> toordinal b"
      using day_of_year_bounds(1) [OF b] by (simp add: toordinal_eq)
    finally show ?thesis .
  next
    case same
    from day_of_year_mono [OF a b same] show ?thesis by (simp add: toordinal_eq same(1))
  qed
qed

lemma one_year_is_365_days:
  assumes h: "valid_date h" and a: "valid_date a" and n: "1 \<le> years_passed h a"
  shows "365 \<le> days_between a h"
proof -
  have ha: "1 \<le> day_of_year a" "day_of_year h \<le> 365 + (if is_leap (year h) then 1 else 0)"
    using day_of_year_bounds [OF a] day_of_year_bounds [OF h] by simp_all
  show ?thesis
  proof (cases "year h + 2 \<le> year a")
    case True
    from days_before_year_le [of "year h" "year a"] True
    have "days_before_year (year h) + 730 \<le> days_before_year (year a)" by simp
    with ha show ?thesis
      by (simp add: days_between_def toordinal_eq split: if_splits)
  next
    case False
    with n have y: "year a = year h + 1"
      and ge: "\<not> (month a < month h \<or> (month a = month h \<and> day a < day h))"
      by (auto simp: years_passed_def Let_def split: if_splits)
    from day_of_year_next [OF h a ge] days_before_year_Suc [of "year h"]
    show ?thesis
      by (simp add: days_between_def toordinal_eq y split: if_splits)
  qed
qed

section \<open>The list of long-tenure names\<close>

lemma date_le_year_end:
  assumes "valid_date a"
  shows "date_le a (ymd (year a) 12 31)"
proof -
  from assms have "month a \<le> 12" "day a \<le> 31"
    using days_in_month_le_31 [of "year a" "month a"] by (auto simp: valid_date_def)
  then show ?thesis by (cases a) (auto simp: date_le_def date_lt_def)
qed

lemma calc_date_cases:
  assumes "calc_date today sel = Some cd" and "valid_date today"
  shows "valid_date cd \<and> (sel = year today \<and> cd = today \<or> sel \<noteq> year today \<and> cd = ymd sel 12 31)"
  using assms by (auto simp: calc_date_def mk_date_Some split: if_splits)

lemma no_annual_leave_under_365_days:
  assumes h: "valid_date h" and a: "valid_date a" and c: "valid_date cd"
    and le: "date_le a cd" and t: "days_between cd h < 365"
  shows "calculate_annual_leave h a = 0"
proof (rule ccontr)
  assume "calculate_annual_leave h a \<noteq> 0"
  then have "1 \<le> years_passed h a"
    by (auto simp: calculate_annual_leave_def Let_def split: if_splits)
  from one_year_is_365_days [OF h a this] toordinal_mono [OF a c le] t
  show False by (simp add: days_between_def)
qed

text \<open>
  C10 (amended).  For a name of the list \<^verbatim>\<open>ONE_YEAR_OR_MORE_EMPLOYEES\<close> the predicate
  \<^verbatim>\<open>is_one_year_or_more\<close> holds for every hire date and target date, so the entitlement
  of the selected year is always taken from \<^verbatim>\<open>calculate_annual_leave\<close> at the anniversary
  of the selected year, never from the monthly rule.  When the tenure at the calculation
  date is under 365 days, that entitlement is 0 if the selected year is 2026 or later or
  if today has reached the anniversary; for a selected year up to 2025 shown before the
  anniversary it is the annual entitlement of the coming anniversary.
\<close>

theorem listed_employee_takes_annual_path:
  assumes listed: "name \<in> set ONE_YEAR_OR_MORE_EMPLOYEES"
    and h: "valid_date hire_date" and t: "valid_date today"
    and a: "anniversary_in hire_date selected_year = Some anniversary_date"
    and c: "calc_date today selected_year = Some cd"
    and tenure: "days_between cd hire_date < 365"
  shows "is_one_year_or_more name hire_date target_date \<and>
         leave_generated today selected_year name hire_date anniversary_date =
           Some (if 2026 \<le> selected_year \<or> date_le anniversary_date today then 0
                 else calculate_annual_leave hire_date anniversary_date)"
proof
  show one: "is_one_year_or_more name hire_date target_date" for target_date
    using listed by (simp add: is_one_year_or_more_def)
  from anniversary_in_Some [OF a] have va: "valid_date anniversary_date"
    and ya: "year anniversary_date = selected_year" by simp_all
  from va ya have sel: "1 \<le> selected_year" "selected_year \<le> 9999"
    by (auto simp: valid_date_def)
  have ye: "mk_date selected_year 12 31 = Some (ymd selected_year 12 31)"
    using sel by (rule mk_date_year_end)
  have le_end: "date_le anniversary_date (ymd selected_year 12 31)"
    using date_le_year_end [OF va] by (simp add: ya)
  from calc_date_cases [OF c t] have vc: "valid_date cd"
    and cases: "selected_year = year today \<and> cd = today \<or>
                selected_year \<noteq> year today \<and> cd = ymd selected_year 12 31"
    by simp_all
  have gen: "leave_generated today selected_year name hire_date anniversary_date =
      (if selected_year \<le> 2025 then Some (calculate_annual_leave hire_date anniversary_date)
       else if date_le anniversary_date today
         then Some (calculate_annual_leave hire_date anniversary_date)
       else Some 0)"
    unfolding leave_generated_def by (simp add: c ye one le_end)
  have zero: "calculate_annual_leave hire_date anniversary_date = 0"
    if "date_le anniversary_date today"
  proof -
    have "date_le anniversary_date cd"
      using cases le_end that by auto
    from no_annual_leave_under_365_days [OF h va vc this tenure] show ?thesis .
  qed
  show "leave_generated today selected_year name hire_date anniversary_date =
           Some (if 2026 \<le> selected_year \<or> date_le anniversary_date today then 0
                 else calculate_annual_leave hire_date anniversary_date)"
    unfolding gen using zero by auto
qed

theorem listed_employee_takes_annual_path_witness:
  "listed_name \<in> set ONE_YEAR_OR_MORE_EMPLOYEES \<and>
   valid_date (ymd 2025 9 1) \<and> valid_date (ymd 2026 2 1) \<and>
   anniversary_in (ymd 2025 9 1) 2026 = Some (ymd 2026 9 1) \<and>
   calc_date (ymd 2026 2 1) 2026 = Some (ymd 2026 2 1) \<and>
   days_between (ymd 2026 2 1) (ymd 2025 9 1) < 365 \<and>
   is_one_year_or_more listed_name (ymd 2025 9 1) (ymd 2026 2 1) \<and>
   leave_generated (ymd 2026 2 1) 2026 listed_name (ymd 2025 9 1) (ymd 2026 9 1) = Some 0"
proof -
  have l: "listed_name \<in> set ONE_YEAR_OR_MORE_EMPLOYEES" by code_simp
  have h: "valid_date (ymd 2025 9 1)" by code_simp
  have t: "valid_date (ymd 2026 2 1)" by code_simp
  have a: "anniversary_in (ymd 2025 9 1) 2026 = Some (ymd 2026 9 1)" by code_simp
  have c: "calc_date (ymd 2026 2 1) 2026 = Some (ymd 2026 2 1)" by code_simp
  have d: "days_between (ymd 2026 2 1) (ymd 2025 9 1) < 365" by code_simp
  from listed_employee_takes_annual_path [OF l h t a c d, of "ymd 2026 2 1"]
  have "is_one_year_or_more listed_name (ymd 2025 9 1) (ymd 2026 2 1)"
    "leave_generated (ymd 2026 2 1) 2026 listed_name (ymd 2025 9 1) (ymd 2026 9 1) = Some 0"
    by simp_all
  with l h t a c d show ?thesis by blast
qed

text \<open>
  The claim as stated gives 0 whenever the tenure is under one year.  A listed employee
  hired on 2024-09-01, with the ledger of 2025 shown on 2025-06-01 (273 days of tenure),
  gets the 15 days of the anniversary 2025-09-01.
\<close>

theorem listed_employee_gets_annual_leave_early:
  "listed_name \<in> set ONE_YEAR_OR_MORE_EMPLOYEES \<and>
   calc_date (ymd 2025 6 1) 2025 = Some (ymd 2025 6 1) \<and>
   days_between (ymd 2025 6 1) (ymd 2024 9 1) = 273 \<and>
   anniversary_in (ymd 2024 9 1) 2025 = Some (ymd 2025 9 1) \<and>
   is_one_year_or_more listed_name (ymd 2024 9 1) (ymd 2025 6 1) \<and>
   leave_generated (ymd 2025 6 1) 2025 listed_name (ymd 2024 9 1) (ymd 2025 9 1) = Some 15"
  by code_simp

section \<open>The tier table on exact anniversaries\<close>

text \<open>
  Away from the day-1 fallback the tier table of C2 holds: on the exact calendar
  anniversary n the function returns the tier of n.  On a fallback anniversary it counts
  n - 1 years.
\<close>

lemma years_passed_on_exact_anniversary:
  assumes "mk_date (year h + n) (month h) (day h) = Some d"
  shows "years_passed h d = n"
  using assms by (auto simp: mk_date_Some years_passed_def)

lemma annual_leave_on_exact_anniversary:
  assumes "mk_date (year h + n) (month h) (day h) = Some d" and "1 \<le> n"
  shows "calculate_annual_leave h d = min (if 3 \<le> n then 15 + ((n - 3) div 2 + 1) else 15) 25"
  using assms(2) years_passed_on_exact_anniversary [OF assms(1)]
  by (simp add: calculate_annual_leave_def Let_def)

lemma years_passed_on_fallback_anniversary:
  assumes "mk_date (year h + n) (month h) (day h) = None"
    and "anniversary_in h (year h + n) = Some d"
  shows "years_passed h d = n - 1"
  using assms by (auto simp: anniversary_in_def mk_date_Some years_passed_def)

section \<open>Monthly entitlement\<close>


lemma months_passed_nonneg:
  assumes h: "valid_date h" and t: "valid_date t" and le: "date_le h t"
  shows "0 \<le> months_passed h t"
proof -
  from h t have m: "1 \<le> month h" "month h \<le> 12" "1 \<le> month t" "month t \<le> 12"
    by (simp_all add: valid_date_def)
  from le consider "year h < year t" | "year h = year t" "month h < month t"
    | "year h = year t" "month h = month t" "day h \<le> day t"
    by (auto simp: date_le_def date_lt_def)
  then show ?thesis
    using m by cases (simp_all add: months_passed_def Let_def)
qed

text \<open>
  \<^verbatim>\<open>calculate_monthly_leave\<close> applies the upper bound only.  From the hire date on it
  agrees with the clamped form.  \<^verbatim>\<open>refresh_data\<close> does not call it; its one caller, the
  monthly check, passes the eve of the one-year date.
\<close>

lemma monthly_leave_from_hire_date:
  assumes "valid_date h" and "valid_date t" and "date_le h t" and "days_between t h < 365"
  shows "calculate_monthly_leave h t = min (max (months_passed h t) 0) 11"
    and "0 \<le> calculate_monthly_leave h t" and "calculate_monthly_leave h t \<le> 11"
  using months_passed_nonneg [OF assms(1-3)] assms(4)
  by (simp_all add: calculate_monthly_leave_def)

text \<open>
  The one-year date is at least 365 days after the hire date, so the monthly check, which
  returns at once for an employee of one year or more, never finds the target date at or
  after the one-year date: it records nothing, and its call of \<^verbatim>\<open>calculate_monthly_leave\<close>
  is never reached.
\<close>

lemma leap_day_fallback:
  assumes h: "valid_date h"
    and none: "mk_date (year h + 1) (month h) (day h) = None"
    and a: "mk_date (year h + 1) (month h) (day h - 1) = Some a"
  shows "month h = 2 \<and> day h = 29 \<and> is_leap (year h) \<and> \<not> is_leap (year h + 1)"
proof -
  from a have va: "valid_date (ymd (year h + 1) (month h) (day h - 1))"
    by (simp add: mk_date_Some)
  from none have nv: "\<not> valid_date (ymd (year h + 1) (month h) (day h))"
    by (simp add: mk_date_def Let_def split: if_splits)
  from h va nv have d: "days_in_month (year h + 1) (month h) < day h"
    "day h \<le> days_in_month (year h) (month h)"
    by (auto simp: valid_date_def)
  then show ?thesis
    by (auto simp: days_in_month_def split: if_splits)
qed

lemma one_year_date_is_365_days:
  assumes h: "valid_date h" and a: "anniversary_in h (year h + 1) = Some a"
  shows "365 \<le> days_between a h"
proof (cases "mk_date (year h + 1) (month h) (day h)")
  case (Some d)
  with a have ad: "a = d" by (simp add: anniversary_in_def)
  from Some ad have m: "mk_date (year h + 1) (month h) (day h) = Some a" by simp
  have va: "valid_date a" using anniversary_in_Some [OF a] by simp
  have "years_passed h a = 1" by (rule years_passed_on_exact_anniversary [OF m])
  then have "1 \<le> years_passed h a" by simp
  from one_year_is_365_days [OF h va this] show ?thesis .
next
  case None
  with a have m: "mk_date (year h + 1) (month h) (day h - 1) = Some a"
    by (simp add: anniversary_in_def)
  from leap_day_fallback [OF h None m] have f: "month h = 2" "day h = 29" "is_leap (year h)"
    by simp_all
  from m f have ae: "a = ymd (year h + 1) 2 28" by (simp add: mk_date_Some)
  have "toordinal a = days_before_year (year h) + 366 + 31 + 28"
    unfolding ae toordinal_def using f(3)
    by (simp add: days_before_year_Suc days_before_month_def)
  moreover have "toordinal h = days_before_year (year h) + 31 + 29"
    unfolding toordinal_def using f by (simp add: days_before_month_def)
  ultimately show ?thesis by (simp add: days_between_def)
qed

lemma monthly_check_records_nothing:
  assumes h: "valid_date h" and t: "valid_date t"
    and run: "check_monthly_leave_expiration db e h t = Some (db', x)"
  shows "db' = db \<and> x = 0"
proof (cases "find (\<lambda>emp. emp_id emp = e) (employees db)")
  case None
  with run show ?thesis by (simp add: check_monthly_unfold)
next
  case (Some emp)
  show ?thesis
  proof (cases "is_one_year_or_more (emp_name emp) h t")
    case True
    with run Some show ?thesis by (simp add: check_monthly_unfold)
  next
    case False
    then have short: "days_between t h < 365"
      by (simp add: is_one_year_or_more_def split: if_splits)
    from run Some False obtain d where d: "anniversary_in h (year h + 1) = Some d"
      by (auto simp: check_monthly_unfold split: option.splits)
    have vd: "valid_date d" using anniversary_in_Some [OF d] by simp
    have "\<not> date_le d t"
    proof
      assume "date_le d t"
      from toordinal_mono [OF vd t this] one_year_date_is_365_days [OF h d] short
      show False by (simp add: days_between_def)
    qed
    with run Some False d show ?thesis by (simp add: check_monthly_unfold)
  qed
qed



section \<open>Monotone parts of the ledger\<close>

lemma date_lt_le_trans: "date_lt a b \<Longrightarrow> date_le b c \<Longrightarrow> date_lt a c"
  by (auto simp: date_le_def date_lt_def)

lemma length_filter_mono:
  assumes "\<And>x. P x \<Longrightarrow> Q x"
  shows "length (filter P xs) \<le> length (filter Q xs)"
  using assms by (induction xs) auto

lemma set_select_leave_rows_mono:
  assumes "date_le d1 d2"
  shows "set (select_leave_rows db e s d1) \<subseteq> set (select_leave_rows db e s d2)"
  using date_lt_le_trans [OF _ assms] by (auto simp: select_leave_rows_def)

text \<open>
  The usage aggregated from a fixed start grows with the end of the window.
\<close>

lemma usage_in_window_mono:
  assumes "date_le d1 d2"
  shows "usage_in_window db e s d1 \<le> usage_in_window db e s d2"
proof -
  let ?r1 = "select_leave_rows db e s d1" and ?r2 = "select_leave_rows db e s d2"
  have sub: "set ?r1 \<subseteq> set ?r2" by (rule set_select_leave_rows_mono [OF assms])
  have "length (filter is_full_day ?r1) \<le> length (filter is_full_day ?r2)"
    unfolding select_leave_rows_def filter_filter
    by (rule length_filter_mono) (use date_lt_le_trans [OF _ assms] in blast)
  moreover have "card (half_day_dates ?r1) \<le> card (half_day_dates ?r2)"
  proof (rule card_mono)
    show "finite (half_day_dates ?r2)" by (rule finite_half_day_dates)
    show "half_day_dates ?r1 \<subseteq> half_day_dates ?r2"
      using sub by (auto simp: half_day_dates_def)
  qed
  ultimately have
    "(of_nat (length (filter is_full_day ?r1)) :: rat) + of_nat (card (half_day_dates ?r1)) / 2
     \<le> of_nat (length (filter is_full_day ?r2)) + of_nat (card (half_day_dates ?r2)) / 2"
    by (intro add_mono divide_right_mono) simp_all
  then show ?thesis by (simp add: usage_in_window_def sum_usage_general)
qed

text \<open>
  The entitlement that the carry-in computes for a year end is monotone in the day
  wherever 365 days of tenure come with a full calendar year: it can only drop at a later
  day that has 365 days of tenure but no full calendar year yet.
\<close>

lemma years_passed_mono:
  assumes "date_le d1 d2"
  shows "years_passed h d1 \<le> years_passed h d2"
proof -
  from assms consider "year d1 < year d2"
    | "year d1 = year d2" "month d1 < month d2"
    | "year d1 = year d2" "month d1 = month d2" "day d1 \<le> day d2"
    by (auto simp: date_le_def date_lt_def)
  then show ?thesis
    by cases (auto simp: years_passed_def Let_def)
qed

lemma months_passed_mono:
  assumes d1: "valid_date d1" and d2: "valid_date d2" and le: "date_le d1 d2"
  shows "months_passed h d1 \<le> months_passed h d2"
proof -
  from d1 d2 have m: "1 \<le> month d1" "month d1 \<le> 12" "1 \<le> month d2" "month d2 \<le> 12"
    by (simp_all add: valid_date_def)
  from le consider "year d1 < year d2"
    | "year d1 = year d2" "month d1 < month d2"
    | "year d1 = year d2" "month d1 = month d2" "day d1 \<le> day d2"
    by (auto simp: date_le_def date_lt_def)
  then show ?thesis
    using m by cases (auto simp: months_passed_def Let_def)
qed

lemma calculate_annual_leave_tier:
  "calculate_annual_leave h d = tier (years_passed h d)"
  by (simp add: calculate_annual_leave_def tier_def Let_def)

lemma tier_mono:
  assumes "n \<le> n'"
  shows "tier n \<le> tier n'"
proof -
  have "(n - 3) div 2 \<le> (n' - 3) div 2" using assms by (intro zdiv_mono1) simp_all
  moreover have "0 \<le> (n' - 3) div 2" if "3 \<le> n'" using that by simp
  ultimately show ?thesis using assms unfolding tier_def by (auto simp: min_def)
qed

lemma tier_bounds: "0 \<le> tier n" "1 \<le> n \<Longrightarrow> 15 \<le> tier n"
proof -
  have "0 \<le> (n - 3) div 2" if "3 \<le> n" using that by simp
  then show "0 \<le> tier n" "1 \<le> n \<Longrightarrow> 15 \<le> tier n"
    unfolding tier_def by (auto simp: min_def)
qed

lemma entitlement_at_mono:
  assumes h: "valid_date h" and d1: "valid_date d1" and d2: "valid_date d2"
    and le: "date_le d1 d2"
    and year: "365 \<le> days_between d2 h \<Longrightarrow> 1 \<le> years_passed h d2"
  shows "entitlement_at h d1 \<le> entitlement_at h d2"
proof -
  have n: "days_between d1 h \<le> days_between d2 h"
    using toordinal_mono [OF d1 d2 le] by (simp add: days_between_def)
  have nonneg: "0 \<le> entitlement_at h d2"
    using tier_bounds(1) [of "years_passed h d2"]
    by (simp add: entitlement_at_def Let_def calculate_annual_leave_tier)
  consider (before) "days_between d1 h < 0"
    | (monthly) "0 \<le> days_between d1 h" "days_between d2 h < 365"
    | (cross) "0 \<le> days_between d1 h" "days_between d1 h < 365" "365 \<le> days_between d2 h"
    | (annual) "365 \<le> days_between d1 h"
    by linarith
  then show ?thesis
  proof cases
    case before
    with nonneg show ?thesis by (simp add: entitlement_at_def Let_def)
  next
    case monthly
    with n months_passed_mono [OF d1 d2 le, of h] show ?thesis
      by (simp add: entitlement_at_def Let_def)
  next
    case cross
    from year [OF cross(3)] have "15 \<le> tier (years_passed h d2)" by (rule tier_bounds(2))
    with cross show ?thesis
      by (simp add: entitlement_at_def Let_def calculate_annual_leave_tier)
  next
    case annual
    with n have "365 \<le> days_between d2 h" by simp
    with annual tier_mono [OF years_passed_mono [OF le, of h]] show ?thesis
      by (simp add: entitlement_at_def Let_def calculate_annual_leave_tier)
  qed
qed

end
